theory Spec2Isabelle
  imports Main "HOL-Library.Word"
begin

section \<open>Go types as seen through reflection\<close>

text \<open>
  The code of \<^verbatim>\<open>parser.go\<close> decides everything by reflection on the target's
  type. The types modelled are the ones an ABI decoder and its targets use: booleans, the
  integer kinds, strings, the empty interface, pointers, slices, arrays, structs and named
  (defined) types over these. Floating point, complex, map, channel and function types
  and interfaces with methods are outside the model. \<open>int\<close>, \<open>uint\<close> and \<open>uintptr\<close>
  are 64 bits wide.
\<close>

datatype ikind = I8 | I16 | I32 | I64 | IInt | U8 | U16 | U32 | U64 | UInt | UPtr

datatype gtype =
    TBool
  | TInt ikind
  | TString
  | TAny
  | TPtr gtype
  | TSlice gtype
  | TArray nat gtype
  | TStruct "(string \<times> gtype) list"
  | TNamed string string gtype

text \<open>\<open>TNamed pkg name u\<close> is the defined type \<open>pkg.name\<close> with underlying type \<open>u\<close>;
  \<open>TAny\<close> is \<^verbatim>\<open>interface {}\<close>; a struct type lists its fields (name, type) in
  declaration order.\<close>

datatype kind = KBool | KInt ikind | KString | KInterface | KPtr | KSlice | KArray | KStruct

fun isigned :: "ikind \<Rightarrow> bool" where
  "isigned I8 = True"
| "isigned I16 = True"
| "isigned I32 = True"
| "isigned I64 = True"
| "isigned IInt = True"
| "isigned _ = False"

fun ibits :: "ikind \<Rightarrow> nat" where
  "ibits I8 = 8"
| "ibits U8 = 8"
| "ibits I16 = 16"
| "ibits U16 = 16"
| "ibits I32 = 32"
| "ibits U32 = 32"
| "ibits _ = 64"

fun ikind_name :: "ikind \<Rightarrow> string" where
  "ikind_name I8 = ''int8''"
| "ikind_name I16 = ''int16''"
| "ikind_name I32 = ''int32''"
| "ikind_name I64 = ''int64''"
| "ikind_name IInt = ''int''"
| "ikind_name U8 = ''uint8''"
| "ikind_name U16 = ''uint16''"
| "ikind_name U32 = ''uint32''"
| "ikind_name U64 = ''uint64''"
| "ikind_name UInt = ''uint''"
| "ikind_name UPtr = ''uintptr''"

fun underlying :: "gtype \<Rightarrow> gtype" where
  "underlying (TNamed p n u) = underlying u"
| "underlying t = t"

text \<open>\<^verbatim>\<open>Type.Kind()\<close>; \<open>KInt k\<close> stands for the eleven integer kinds.\<close>

fun kind_of :: "gtype \<Rightarrow> kind" where
  "kind_of TBool = KBool"
| "kind_of (TInt k) = KInt k"
| "kind_of TString = KString"
| "kind_of TAny = KInterface"
| "kind_of (TPtr t) = KPtr"
| "kind_of (TSlice t) = KSlice"
| "kind_of (TArray n t) = KArray"
| "kind_of (TStruct fs) = KStruct"
| "kind_of (TNamed p n u) = kind_of u"

text \<open>\<^verbatim>\<open>Type.Elem()\<close> of a pointer, slice or array type; \<^verbatim>\<open>Type.NumField()\<close> and the
  fields of a struct type.\<close>

fun elem_of :: "gtype \<Rightarrow> gtype" where
  "elem_of (TPtr t) = t"
| "elem_of (TSlice t) = t"
| "elem_of (TArray n t) = t"
| "elem_of (TNamed p n u) = elem_of u"
| "elem_of t = t"

fun fields_of :: "gtype \<Rightarrow> (string \<times> gtype) list" where
  "fields_of (TStruct fs) = fs"
| "fields_of (TNamed p n u) = fields_of u"
| "fields_of t = []"

definition NumField :: "gtype \<Rightarrow> nat" where
  "NumField t = length (fields_of t)"

text \<open>\<^verbatim>\<open>Type.Name()\<close>: the name of a defined or predeclared type, empty for a type
  literal.\<close>

fun type_name :: "gtype \<Rightarrow> string" where
  "type_name TBool = ''bool''"
| "type_name (TInt k) = ikind_name k"
| "type_name TString = ''string''"
| "type_name (TNamed p n u) = n"
| "type_name t = ''''"

fun has_name :: "gtype \<Rightarrow> bool" where
  "has_name TBool = True"
| "has_name (TInt k) = True"
| "has_name TString = True"
| "has_name (TNamed p n u) = True"
| "has_name t = False"

text \<open>\<^verbatim>\<open>Type.String()\<close>: a defined type prints as \<open>pkg.Name\<close>, a literal structurally.\<close>

fun show_nat :: "nat \<Rightarrow> string" where
  "show_nat n = (if n < 10 then [''0123456789'' ! n]
                 else show_nat (n div 10) @ [''0123456789'' ! (n mod 10)])"

fun type_string :: "gtype \<Rightarrow> string" and fields_string :: "(string \<times> gtype) list \<Rightarrow> string" where
  "type_string TBool = ''bool''"
| "type_string (TInt k) = ikind_name k"
| "type_string TString = ''string''"
| "type_string TAny = ''interface {}''"
| "type_string (TPtr t) = ''*'' @ type_string t"
| "type_string (TSlice t) = ''[]'' @ type_string t"
| "type_string (TArray n t) = ''['' @ show_nat n @ '']'' @ type_string t"
| "type_string (TStruct fs) = (if fs = [] then ''struct {}'' else ''struct { '' @ fields_string fs @ '' }'')"
| "type_string (TNamed p n u) = p @ ''.'' @ n"
| "fields_string [] = ''''"
| "fields_string (f # fs) =
     fst f @ '' '' @ type_string (snd f) @ (if fs = [] then [] else ''; '' @ fields_string fs)"

text \<open>\<^verbatim>\<open>strings.TrimPrefix(s, "*")\<close>.\<close>

definition TrimPrefix_star :: "string \<Rightarrow> string" where
  "TrimPrefix_star s = (case s of c # r \<Rightarrow> if c = CHR ''*'' then r else s | [] \<Rightarrow> s)"

text \<open>A struct field is exported when its name starts with an upper-case letter
  (ASCII letters only are modelled).\<close>

definition exported :: "string \<Rightarrow> bool" where
  "exported n = (case n of c # r \<Rightarrow> c \<in> set ''ABCDEFGHIJKLMNOPQRSTUVWXYZ'' | [] \<Rightarrow> False)"

text \<open>The two special leaf types, as the libraries declare them.\<close>

definition big_Int :: gtype where
  "big_Int = TNamed ''big'' ''Int''
     (TStruct [(''neg'', TBool),
               (''abs'', TNamed ''big'' ''nat'' (TSlice (TNamed ''big'' ''Word'' (TInt UInt))))])"

definition common_Address :: gtype where
  "common_Address = TNamed ''common'' ''Address'' (TArray 20 (TInt U8))"

section \<open>Values, the heap and reflective assignment\<close>

text \<open>
  A value carries its dynamic type, as a Go value boxed in \<^verbatim>\<open>any\<close> does. \<open>VNil\<close> is
  the nil interface. A pointer is nil or refers to a place: a heap cell and a path of
  struct field indices inside it (an interior pointer, as \<^verbatim>\<open>field.Addr()\<close> yields).
  A slice is modelled by its contents: backing arrays shared between slices, and
  capacities, are not.
\<close>

type_synonym ref = "nat \<times> nat list"

datatype val =
    VNil
  | VBool gtype bool
  | VInt gtype int
  | VStr gtype string
  | VPtr gtype "ref option"
  | VSlice gtype "val list"
  | VArray gtype "val list"
  | VStruct gtype "val list"

type_synonym heap = "val list"

text \<open>\<^verbatim>\<open>reflect.TypeOf\<close>: nothing for the nil interface.\<close>

fun typeof :: "val \<Rightarrow> gtype option" where
  "typeof VNil = None"
| "typeof (VBool t b) = Some t"
| "typeof (VInt t n) = Some t"
| "typeof (VStr t s) = Some t"
| "typeof (VPtr t p) = Some t"
| "typeof (VSlice t xs) = Some t"
| "typeof (VArray t xs) = Some t"
| "typeof (VStruct t xs) = Some t"

fun retag :: "gtype \<Rightarrow> val \<Rightarrow> val" where
  "retag T VNil = VNil"
| "retag T (VBool t b) = VBool T b"
| "retag T (VInt t n) = VInt T n"
| "retag T (VStr t s) = VStr T s"
| "retag T (VPtr t p) = VPtr T p"
| "retag T (VSlice t xs) = VSlice T xs"
| "retag T (VArray t xs) = VArray T xs"
| "retag T (VStruct t xs) = VStruct T xs"

text \<open>The zero value of a type: \<open>zero_as T u\<close> is the zero value of the shape \<open>u\<close>
  tagged with the type \<open>T\<close>.\<close>

fun zero_as :: "gtype \<Rightarrow> gtype \<Rightarrow> val" where
  "zero_as T TBool = VBool T False"
| "zero_as T (TInt k) = VInt T 0"
| "zero_as T TString = VStr T []"
| "zero_as T TAny = VNil"
| "zero_as T (TPtr t) = VPtr T None"
| "zero_as T (TSlice t) = VSlice T []"
| "zero_as T (TArray n t) = VArray T (replicate n (zero_as t t))"
| "zero_as T (TStruct fs) = VStruct T (map (\<lambda>f. zero_as (snd f) (snd f)) fs)"
| "zero_as T (TNamed p n u) = zero_as T u"

definition zero :: "gtype \<Rightarrow> val" where
  "zero T = zero_as T T"

subsection \<open>Places\<close>

fun get_path :: "val \<Rightarrow> nat list \<Rightarrow> val option" where
  "get_path v [] = Some v"
| "get_path (VStruct t fs) (i # p) = (if i < length fs then get_path (fs ! i) p else None)"
| "get_path v (i # p) = None"

fun put_path :: "val \<Rightarrow> nat list \<Rightarrow> val \<Rightarrow> val option" where
  "put_path v [] x = Some x"
| "put_path (VStruct t fs) (i # p) x =
     (if i < length fs
      then (case put_path (fs ! i) p x of None \<Rightarrow> None | Some f \<Rightarrow> Some (VStruct t (fs[i := f])))
      else None)"
| "put_path v (i # p) x = None"

definition load :: "heap \<Rightarrow> ref \<Rightarrow> val option" where
  "load h r = (if fst r < length h then get_path (h ! fst r) (snd r) else None)"

definition store :: "heap \<Rightarrow> ref \<Rightarrow> val \<Rightarrow> heap option" where
  "store h r x =
     (if fst r < length h
      then (case put_path (h ! fst r) (snd r) x of None \<Rightarrow> None | Some c \<Rightarrow> Some (h[fst r := c]))
      else None)"

text \<open>\<^verbatim>\<open>reflect.New\<close> and \<^verbatim>\<open>&x\<close>: a new cell at the end of the heap.\<close>

definition alloc :: "heap \<Rightarrow> val \<Rightarrow> heap \<times> ref" where
  "alloc h v = (h @ [v], (length h, []))"

subsection \<open>Assignability and conversion\<close>

text \<open>
  \<^verbatim>\<open>reflect.Value.Set\<close> panics unless the value's type is assignable to the place's
  type: the types are identical, or they have identical underlying types and one of them
  is a type literal, or the place is of interface type. Predeclared types such as
  \<^verbatim>\<open>uint64\<close> count as named.
\<close>

definition directlyAssignable :: "gtype \<Rightarrow> gtype \<Rightarrow> bool" where
  "directlyAssignable T V =
     (T = V \<or> (\<not> (has_name T \<and> has_name V) \<and> kind_of T = kind_of V \<and> underlying T = underlying V))"

definition assignTo :: "gtype \<Rightarrow> val \<Rightarrow> val option" where
  "assignTo dst v =
     (case typeof v of
        None \<Rightarrow> None
      | Some V \<Rightarrow> if directlyAssignable dst V then Some (retag dst v)
                  else if kind_of dst = KInterface then Some v
                  else None)"

text \<open>Integer conversion wraps to the destination's width.\<close>

definition wrap_int :: "ikind \<Rightarrow> int \<Rightarrow> int" where
  "wrap_int k n =
     (if isigned k then (n + 2 ^ (ibits k - 1)) mod 2 ^ ibits k - 2 ^ (ibits k - 1)
      else n mod 2 ^ ibits k)"

text \<open>\<^verbatim>\<open>string(rune(x))\<close>: the UTF-8 encoding of a code point, of U+FFFD when \<open>x\<close> is
  none.\<close>

definition utf8 :: "int \<Rightarrow> string" where
  "utf8 r =
     (if r < 0x80 then [char_of r]
      else if r < 0x800 then [char_of (0xC0 + r div 64), char_of (0x80 + r mod 64)]
      else if r < 0x10000
        then [char_of (0xE0 + r div 4096), char_of (0x80 + r div 64 mod 64), char_of (0x80 + r mod 64)]
      else [char_of (0xF0 + r div 262144), char_of (0x80 + r div 4096 mod 64),
            char_of (0x80 + r div 64 mod 64), char_of (0x80 + r mod 64)])"

definition rune_string :: "int \<Rightarrow> string" where
  "rune_string r =
     (if 0 \<le> r \<and> r \<le> 0x10FFFF \<and> \<not> (0xD800 \<le> r \<and> r \<le> 0xDFFF) then utf8 r else utf8 0xFFFD)"

text \<open>
  \<^verbatim>\<open>reflect.convertOp\<close>, which \<^verbatim>\<open>CanConvert\<close> and \<^verbatim>\<open>Convert\<close> share. The code
  converts only into a field that is not a pointer, struct, slice or array, so the
  cases for those destinations (string to byte slice, slice to array) are left out.
  The signed and the unsigned integer conversions of reflect act alike on the integer
  value and are one case here, \<open>cvtInt\<close>, as are the two conversions of an integer to a
  string, \<open>cvtIntString\<close>.
\<close>

datatype cvt = cvtInt | cvtIntString | cvtBytesString | cvtRunesString | cvtDirect | cvtT2I

definition convertOp :: "gtype \<Rightarrow> gtype \<Rightarrow> cvt option" where
  "convertOp dst src =
     (let special =
        (case kind_of src of
           KInt k \<Rightarrow> (case kind_of dst of KInt k' \<Rightarrow> Some cvtInt | KString \<Rightarrow> Some cvtIntString | _ \<Rightarrow> None)
         | KSlice \<Rightarrow>
             (if kind_of dst = KString \<and> elem_of src = TInt U8 then Some cvtBytesString
              else if kind_of dst = KString \<and> elem_of src = TInt I32 then Some cvtRunesString
              else None)
         | _ \<Rightarrow> None)
      in if special \<noteq> None then special
         else if underlying dst = underlying src then Some cvtDirect
         else if kind_of dst = KPtr \<and> type_name dst = [] \<and> kind_of src = KPtr \<and> type_name src = []
                 \<and> underlying (elem_of dst) = underlying (elem_of src) then Some cvtDirect
         else if kind_of dst = KInterface then Some cvtT2I
         else None)"

fun the_int :: "val \<Rightarrow> int" where
  "the_int (VInt t n) = n"
| "the_int v = 0"

fun the_elems :: "val \<Rightarrow> val list" where
  "the_elems (VSlice t xs) = xs"
| "the_elems v = []"

fun apply_cvt :: "cvt \<Rightarrow> gtype \<Rightarrow> val \<Rightarrow> val" where
  "apply_cvt cvtInt dst v =
     (case kind_of dst of KInt k \<Rightarrow> VInt dst (wrap_int k (the_int v)) | _ \<Rightarrow> v)"
| "apply_cvt cvtIntString dst v =
     VStr dst (if - (2 ^ 31) \<le> the_int v \<and> the_int v < 2 ^ 31 then rune_string (the_int v)
               else rune_string 0xFFFD)"
| "apply_cvt cvtBytesString dst v = VStr dst (map (\<lambda>b. char_of (the_int b)) (the_elems v))"
| "apply_cvt cvtRunesString dst v = VStr dst (concat (map (\<lambda>r. rune_string (the_int r)) (the_elems v)))"
| "apply_cvt cvtDirect dst v = retag dst v"
| "apply_cvt cvtT2I dst v = v"

section \<open>Outcomes\<close>

text \<open>
  Each function of the file returns nil, returns an error built by \<^verbatim>\<open>fmt.Errorf\<close>, or panics. The
  errors keep the parts of the message; \<open>Wrapped\<close> is the \<^verbatim>\<open>%w\<close> wrapping of a nested
  error, with the string put in for \<^verbatim>\<open>%s\<close>.
\<close>

datatype site = In_parseStruct | In_parseSlice | In_parsePointer

datatype field_class = PointerField | StructField | SliceField

datatype error =
    NotPointer site
  | NotStructPointer
  | NotSlicePointer
  | CountMismatch
  | ExpectedBigInt "gtype option"
  | UnsupportedPointer gtype
  | CannotConvert gtype gtype
  | Wrapped site field_class string error

datatype panic = IndexOutOfRange | TypeAssertion | NilDereference | ReflectPanic | NoSuchPlace

datatype 'a result = Ok 'a | Err error | Panic panic

text \<open>
  The errors and their messages:
  \<^item> \<open>NotPointer s\<close>: \<^verbatim>\<open>[s] v must be a pointer\<close>;
  \<^item> \<open>NotStructPointer\<close>: \<^verbatim>\<open>[parseStruct] v must be a struct pointer\<close>;
  \<^item> \<open>NotSlicePointer\<close>: \<^verbatim>\<open>[parseSlice] v must be a slice pointer\<close>;
  \<^item> \<open>CountMismatch\<close>:
    \<^verbatim>\<open>[parseStruct] number of decoded values does not match number of struct fields\<close>;
  \<^item> \<open>ExpectedBigInt t\<close>: \<^verbatim>\<open>[parseStruct] expected *big.Int, got %T\<close>, with the node's
    dynamic type \<open>t\<close>;
  \<^item> \<open>UnsupportedPointer t\<close>: \<^verbatim>\<open>[parseStruct] unsupported pointer type: %s\<close>;
  \<^item> \<open>CannotConvert v t\<close>: \<^verbatim>\<open>[parseStruct] cannot convert %T to %s\<close>, from the node's
    type \<open>v\<close> to the field's type \<open>t\<close>;
  \<^item> \<open>Wrapped s c n e\<close>: \<^verbatim>\<open>[s] error parsing c field n: e\<close>, where \<open>c\<close> is
    \<^verbatim>\<open>pointer\<close>, \<^verbatim>\<open>struct\<close> or \<^verbatim>\<open>slice\<close>.

  The panics: an index out of range, a failed type assertion, a method call on the nil
  \<^verbatim>\<open>reflect.Type\<close>, and a panic raised inside the reflect package. \<open>NoSuchPlace\<close> marks
  a heap in which a pointer refers to no place of the right shape, which no Go program
  state is.
\<close>

section \<open>Reflective values\<close>

text \<open>
  A \<^verbatim>\<open>reflect.Value\<close> is either addressable, a place with its static type and the
  read-only mark of a value reached through an unexported field, or a plain value.
\<close>

datatype rvalue = Loc gtype ref bool | Imm val

fun Value_Type :: "rvalue \<Rightarrow> gtype option" where
  "Value_Type (Loc t r ro) = Some t"
| "Value_Type (Imm v) = typeof v"

fun Value_read :: "heap \<Rightarrow> rvalue \<Rightarrow> val option" where
  "Value_read h (Loc t r ro) = load h r"
| "Value_read h (Imm v) = Some v"

text \<open>\<^verbatim>\<open>v.Set(x)\<close> panics unless \<open>v\<close> is addressable and not read-only and \<open>x\<close> is
  assignable to its type.\<close>

fun Value_Set :: "heap \<Rightarrow> rvalue \<Rightarrow> val \<Rightarrow> heap result" where
  "Value_Set h (Imm v) x = Panic ReflectPanic"
| "Value_Set h (Loc t r ro) x =
     (if ro then Panic ReflectPanic
      else (case assignTo t x of
              None \<Rightarrow> Panic ReflectPanic
            | Some y \<Rightarrow> (case store h r y of None \<Rightarrow> Panic NoSuchPlace | Some h' \<Rightarrow> Ok h')))"

text \<open>\<^verbatim>\<open>v.Interface()\<close> panics on a read-only value; \<^verbatim>\<open>v.Addr()\<close> on one that is not
  addressable.\<close>

fun Value_Interface :: "heap \<Rightarrow> rvalue \<Rightarrow> val result" where
  "Value_Interface h (Imm v) = Ok v"
| "Value_Interface h (Loc t r ro) =
     (if ro then Panic ReflectPanic
      else (case load h r of None \<Rightarrow> Panic NoSuchPlace | Some v \<Rightarrow> Ok v))"

fun Value_Addr_Interface :: "rvalue \<Rightarrow> val result" where
  "Value_Addr_Interface (Imm v) = Panic ReflectPanic"
| "Value_Addr_Interface (Loc t r ro) =
     (if ro then Panic ReflectPanic else Ok (VPtr (TPtr t) (Some r)))"

text \<open>\<^verbatim>\<open>p.Elem()\<close> of a pointer that is not nil: the place it points to.\<close>

fun Value_Elem :: "heap \<Rightarrow> rvalue \<Rightarrow> rvalue option" where
  "Value_Elem h (Imm v) = (case v of VPtr t (Some q) \<Rightarrow> Some (Loc (elem_of t) q False) | _ \<Rightarrow> None)"
| "Value_Elem h (Loc t r ro) =
     (case load h r of Some (VPtr t' (Some q)) \<Rightarrow> Some (Loc (elem_of t) q ro) | _ \<Rightarrow> None)"

definition reflect_New :: "heap \<Rightarrow> gtype \<Rightarrow> heap \<times> val" where
  "reflect_New h t = (case alloc h (zero t) of (h', r) \<Rightarrow> (h', VPtr (TPtr t) (Some r)))"

text \<open>\<^verbatim>\<open>rve.Set(reflect.Append(rve, x))\<close> on the slice of type \<open>st\<close> at place \<open>r\<close>.
  The slice at \<open>r\<close> gets the new contents and no other place changes. In Go two slices
  may share a backing array, and an append through one of them within its capacity then
  also overwrites what the other shows beyond the length of the first; with slices
  modelled by their contents this is not seen, so what is proved about places other than
  the target holds for targets that share no backing array with them.\<close>

definition Append_Set :: "heap \<Rightarrow> gtype \<Rightarrow> ref \<Rightarrow> val \<Rightarrow> heap result" where
  "Append_Set h st r x =
     (case load h r of
        Some (VSlice t xs) \<Rightarrow>
          (case assignTo (elem_of st) x of
             None \<Rightarrow> Panic ReflectPanic
           | Some y \<Rightarrow> (case store h r (VSlice t (xs @ [y])) of
                          None \<Rightarrow> Panic NoSuchPlace
                        | Some h' \<Rightarrow> Ok h'))
      | _ \<Rightarrow> Panic NoSuchPlace)"

text \<open>The type assertions \<^verbatim>\<open>x.([]any)\<close>, \<^verbatim>\<open>x.(string)\<close>, \<^verbatim>\<open>x.([]byte)\<close> and
  \<^verbatim>\<open>x.(*big.Int)\<close>: the dynamic type must be exactly the asserted one.\<close>

definition asList :: "val \<Rightarrow> val list option" where
  "asList d = (case d of VSlice t xs \<Rightarrow> if t = TSlice TAny then Some xs else None | _ \<Rightarrow> None)"

definition asString :: "val \<Rightarrow> string option" where
  "asString d = (case d of VStr t s \<Rightarrow> if t = TString then Some s else None | _ \<Rightarrow> None)"

definition isBytes :: "val \<Rightarrow> bool" where
  "isBytes d = (typeof d = Some (TSlice (TInt U8)))"

definition isBigInt :: "val \<Rightarrow> bool" where
  "isBigInt d = (typeof d = Some (TPtr big_Int))"

text \<open>\<^verbatim>\<open>common.HexToAddress\<close> belongs to go-ethereum; the model takes it as the
  parameter \<open>H\<close>, from the string to the bytes of the address.\<close>

type_synonym hexparser = "string \<Rightarrow> 8 word list"

definition Address_val :: "8 word list \<Rightarrow> val" where
  "Address_val bs = VArray common_Address (map (\<lambda>b. VInt (TInt U8) (uint b)) bs)"

definition wrap :: "site \<Rightarrow> field_class \<Rightarrow> string \<Rightarrow> 'a result \<Rightarrow> 'a result" where
  "wrap s c n res = (case res of Err e \<Rightarrow> Err (Wrapped s c n e) | Ok x \<Rightarrow> Ok x | Panic p \<Rightarrow> Panic p)"

text \<open>The size of a decoded node tree, by which the binders' recursion descends.\<close>

fun nsize :: "val \<Rightarrow> nat" where
  "nsize (VSlice t xs) = Suc (sum_list (map (\<lambda>x. Suc (nsize x)) xs))"
| "nsize v = 0"

definition lsize :: "val list \<Rightarrow> nat" where
  "lsize xs = sum_list (map (\<lambda>x. Suc (nsize x)) xs)"

section \<open>The binders of parser.go\<close>

text \<open>
  \<^verbatim>\<open>parseStruct\<close>, \<^verbatim>\<open>parseSlice\<close> and \<^verbatim>\<open>parsePointer\<close>. The loop of
  \<^verbatim>\<open>parseStruct\<close> over the field index is \<open>parseStruct_fields\<close> and its body, the
  dispatch on one field, is \<open>parseStruct_field\<close>; the loop of \<^verbatim>\<open>parseSlice\<close> over the
  decoded nodes is \<open>parseSlice_loop\<close> and its body \<open>parseSlice_elem\<close>. The heap is
  passed in and, when the function returns nil, returned; the heap that a function leaves
  when it returns an error or panics is not kept.
\<close>

function parseStruct :: "hexparser \<Rightarrow> heap \<Rightarrow> val list \<Rightarrow> val \<Rightarrow> heap result"
  and parseStruct_fields :: "hexparser \<Rightarrow> heap \<Rightarrow> val list \<Rightarrow> gtype \<Rightarrow> ref \<Rightarrow> nat \<Rightarrow> heap result"
  and parseStruct_field :: "hexparser \<Rightarrow> heap \<Rightarrow> rvalue \<Rightarrow> val \<Rightarrow> heap result"
  and parseSlice :: "hexparser \<Rightarrow> heap \<Rightarrow> val list \<Rightarrow> val \<Rightarrow> heap result"
  and parseSlice_loop :: "hexparser \<Rightarrow> heap \<Rightarrow> val list \<Rightarrow> gtype \<Rightarrow> ref \<Rightarrow> heap result"
  and parseSlice_elem :: "hexparser \<Rightarrow> heap \<Rightarrow> val \<Rightarrow> gtype \<Rightarrow> ref \<Rightarrow> heap result"
  and parsePointer :: "hexparser \<Rightarrow> heap \<Rightarrow> val list \<Rightarrow> rvalue \<Rightarrow> heap result"
where
  "parseStruct H h decoded structVal =
     (case structVal of
        VPtr pt (Some r) \<Rightarrow>
          if kind_of (elem_of pt) \<noteq> KStruct then Err NotStructPointer
          else if length decoded \<noteq> NumField (elem_of pt)
                  \<and> type_string (elem_of pt) \<noteq> ''big.Int''
                  \<and> type_string (elem_of pt) \<noteq> ''common.Address''
          then Err CountMismatch
          else parseStruct_fields H h decoded (elem_of pt) r 0
      | _ \<Rightarrow> Err (NotPointer In_parseStruct))"
| "parseStruct_fields H h decoded st r i =
     (if i < NumField st then
        if i < length decoded then
          (case parseStruct_field H h
                  (Loc (snd (fields_of st ! i)) (fst r, snd r @ [i])
                       (\<not> exported (fst (fields_of st ! i))))
                  (decoded ! i) of
             Ok h' \<Rightarrow> parseStruct_fields H h' decoded st r (Suc i)
           | Err e \<Rightarrow> Err e
           | Panic c \<Rightarrow> Panic c)
        else Panic IndexOutOfRange
      else Ok h)"
| "parseStruct_field H h (Imm v) d = Panic ReflectPanic"
| "parseStruct_field H h (Loc ft fr ro) d =
     (if kind_of ft = KPtr \<and> type_string (elem_of ft) \<noteq> ''big.Int''
           \<and> type_string (elem_of ft) \<noteq> ''common.Address''
      then
        wrap In_parseStruct PointerField (type_name ft)
          (if kind_of (elem_of ft) = KStruct then
             (case (case load h fr of
                      Some (VPtr t None) \<Rightarrow>
                        (case reflect_New h (elem_of ft) of
                           (h1, p) \<Rightarrow> Value_Set h1 (Loc ft fr ro) p)
                    | Some v \<Rightarrow> Ok h
                    | None \<Rightarrow> Panic NoSuchPlace) of
                Ok h1 \<Rightarrow>
                  (case asList d of
                     None \<Rightarrow> Panic TypeAssertion
                   | Some xs \<Rightarrow>
                       (case Value_Interface h1 (Loc ft fr ro) of
                          Ok p \<Rightarrow> parseStruct H h1 xs p
                        | Err e \<Rightarrow> Err e
                        | Panic c \<Rightarrow> Panic c))
              | Err e \<Rightarrow> Err e
              | Panic c \<Rightarrow> Panic c)
           else parsePointer H h [d] (Loc ft fr ro))
      else if kind_of ft = KStruct then
        (case asList d of
           None \<Rightarrow> Panic TypeAssertion
         | Some xs \<Rightarrow>
             (case Value_Addr_Interface (Loc ft fr ro) of
                Ok p \<Rightarrow> wrap In_parseStruct StructField (type_name ft) (parseStruct H h xs p)
              | Err e \<Rightarrow> Err e
              | Panic c \<Rightarrow> Panic c))
      else if kind_of ft = KSlice \<or> kind_of ft = KArray then
        (case typeof d of
           None \<Rightarrow> Panic NilDereference
         | Some vType \<Rightarrow>
             if type_string vType = ''[]uint8'' \<or> type_string vType = ''[]byte'' then
               (if isBytes d then Value_Set h (Loc ft fr ro) d else Panic TypeAssertion)
             else if type_string vType = ''string'' then
               (if TrimPrefix_star (type_string ft) = ''common.Address'' then
                  (case asString d of
                     None \<Rightarrow> Panic TypeAssertion
                   | Some s \<Rightarrow> Value_Set h (Loc ft fr ro) (Address_val (H s)))
                else Value_Set h (Loc ft fr ro) d)
             else
               (case asList d of
                  None \<Rightarrow> Panic TypeAssertion
                | Some xs \<Rightarrow>
                    (case Value_Addr_Interface (Loc ft fr ro) of
                       Ok p \<Rightarrow> wrap In_parseStruct SliceField (type_name ft) (parseSlice H h xs p)
                     | Err e \<Rightarrow> Err e
                     | Panic c \<Rightarrow> Panic c)))
      else if kind_of ft = KPtr then
        (if type_string (elem_of ft) = ''big.Int'' then
           (if isBigInt d then Value_Set h (Loc ft fr ro) d else Err (ExpectedBigInt (typeof d)))
         else if type_string (elem_of ft) = ''common.Address'' then
           (case asString d of
              None \<Rightarrow> Panic TypeAssertion
            | Some s \<Rightarrow>
                (case alloc h (Address_val (H s)) of
                   (h1, a) \<Rightarrow> Value_Set h1 (Loc ft fr ro) (VPtr (TPtr common_Address) (Some a))))
         else Err (UnsupportedPointer ft))
      else if TrimPrefix_star (type_string ft) = ''common.Address'' then
        (case asString d of
           None \<Rightarrow> Panic TypeAssertion
         | Some s \<Rightarrow> Value_Set h (Loc ft fr ro) (Address_val (H s)))
      else
        (case typeof d of
           None \<Rightarrow> Panic ReflectPanic
         | Some vt \<Rightarrow>
             if vt \<noteq> ft then
               (case convertOp ft vt of
                  Some c \<Rightarrow> Value_Set h (Loc ft fr ro) (apply_cvt c ft d)
                | None \<Rightarrow> Err (CannotConvert vt ft))
             else Value_Set h (Loc ft fr ro) d))"
| "parseSlice H h decoded sliceVal =
     (case sliceVal of
        VPtr pt (Some r) \<Rightarrow>
          if kind_of (elem_of pt) \<noteq> KSlice then Err NotSlicePointer
          else parseSlice_loop H h decoded (elem_of pt) r
      | _ \<Rightarrow> Err (NotPointer In_parseSlice))"
| "parseSlice_loop H h [] st r = Ok h"
| "parseSlice_loop H h (d # rest) st r =
     (case parseSlice_elem H h d st r of
        Ok h' \<Rightarrow> parseSlice_loop H h' rest st r
      | Err e \<Rightarrow> Err e
      | Panic c \<Rightarrow> Panic c)"
| "parseSlice_elem H h d st r =
     (if kind_of (elem_of st) = KPtr \<and> type_string (elem_of (elem_of st)) \<noteq> ''big.Int''
           \<and> type_string (elem_of (elem_of st)) \<noteq> ''common.Address''
      then
        (case reflect_New h (elem_of (elem_of st)) of
           (h1, newPtr) \<Rightarrow>
             (case asList d of
                None \<Rightarrow> Panic TypeAssertion
              | Some xs \<Rightarrow>
                  (case wrap In_parseSlice PointerField (type_name st)
                          (parsePointer H h1 xs (Imm newPtr)) of
                     Ok h2 \<Rightarrow> Append_Set h2 st r newPtr
                   | Err e \<Rightarrow> Err e
                   | Panic c \<Rightarrow> Panic c)))
      else if kind_of (elem_of st) = KStruct then
        (case reflect_New h (elem_of st) of
           (h1, newStruct) \<Rightarrow>
             (case asList d of
                None \<Rightarrow> Panic TypeAssertion
              | Some xs \<Rightarrow>
                  (case wrap In_parseSlice StructField (type_name st)
                          (parseStruct H h1 xs newStruct) of
                     Ok h2 \<Rightarrow>
                       (case Value_Elem h2 (Imm newStruct) of
                          Some e \<Rightarrow>
                            (case Value_read h2 e of
                               Some v \<Rightarrow> Append_Set h2 st r v
                             | None \<Rightarrow> Panic NoSuchPlace)
                        | None \<Rightarrow> Panic NoSuchPlace)
                   | Err e \<Rightarrow> Err e
                   | Panic c \<Rightarrow> Panic c)))
      else if kind_of (elem_of st) = KSlice \<or> kind_of (elem_of st) = KArray then
        (case asList d of
           None \<Rightarrow> Panic TypeAssertion
         | Some xs \<Rightarrow>
             wrap In_parseSlice SliceField (type_name st)
               (parseSlice H h xs (VPtr (TPtr st) (Some r))))
      else Append_Set h st r d)"
| "parsePointer H h decoded pointerVal =
     (case Value_Type pointerVal of
        None \<Rightarrow> Err (NotPointer In_parsePointer)
      | Some pt \<Rightarrow>
          if kind_of pt \<noteq> KPtr then Err (NotPointer In_parsePointer)
          else
            (case (case Value_read h pointerVal of
                     Some (VPtr t None) \<Rightarrow>
                       (case reflect_New h (elem_of pt) of (h1, p) \<Rightarrow> Value_Set h1 pointerVal p)
                   | Some v \<Rightarrow> Ok h
                   | None \<Rightarrow> Panic NoSuchPlace) of
               Ok h1 \<Rightarrow>
                 (if kind_of (elem_of pt) = KStruct then
                    (case Value_Interface h1 pointerVal of
                       Ok p \<Rightarrow>
                         wrap In_parsePointer StructField (type_name (elem_of pt))
                           (parseStruct H h1 decoded p)
                     | Err e \<Rightarrow> Err e
                     | Panic c \<Rightarrow> Panic c)
                  else if kind_of (elem_of pt) = KSlice \<or> kind_of (elem_of pt) = KArray then
                    (case Value_Addr_Interface pointerVal of
                       Ok p \<Rightarrow>
                         wrap In_parsePointer SliceField (type_name (elem_of pt))
                           (parseSlice H h1 decoded p)
                     | Err e \<Rightarrow> Err e
                     | Panic c \<Rightarrow> Panic c)
                  else
                    (case Value_Elem h1 pointerVal of
                       Some e \<Rightarrow> Value_Set h1 e (VSlice (TSlice TAny) decoded)
                     | None \<Rightarrow> Panic NoSuchPlace))
             | Err e \<Rightarrow> Err e
             | Panic c \<Rightarrow> Panic c))"
  by pat_completeness auto

text \<open>The measures of the termination proof: the size of the decoded nodes, the rank of
  the function, and the number of fields left.\<close>

definition rank_pointer :: "rvalue \<Rightarrow> nat" where
  "rank_pointer pv =
     (case Value_Type pv of
        None \<Rightarrow> 3
      | Some pt \<Rightarrow> if kind_of (elem_of pt) = KStruct then 7 else 3)"

type_synonym binder_call =
  "((hexparser \<times> heap \<times> val list \<times> val)
    + ((hexparser \<times> heap \<times> val list \<times> gtype \<times> ref \<times> nat) + (hexparser \<times> heap \<times> rvalue \<times> val)))
   + (((hexparser \<times> heap \<times> val list \<times> val) + (hexparser \<times> heap \<times> val list \<times> gtype \<times> ref))
      + ((hexparser \<times> heap \<times> val \<times> gtype \<times> ref) + (hexparser \<times> heap \<times> val list \<times> rvalue)))"

definition call_nodes :: "binder_call \<Rightarrow> nat" where
  "call_nodes c =
     (case c of
        Inl (Inl (H, h, ds, sv)) \<Rightarrow> lsize ds
      | Inl (Inr (Inl (H, h, ds, st, r, i))) \<Rightarrow> lsize ds
      | Inl (Inr (Inr (H, h, field, d))) \<Rightarrow> Suc (nsize d)
      | Inr (Inl (Inl (H, h, ds, sv))) \<Rightarrow> lsize ds
      | Inr (Inl (Inr (H, h, ds, st, r))) \<Rightarrow> lsize ds
      | Inr (Inr (Inl (H, h, d, st, r))) \<Rightarrow> Suc (nsize d)
      | Inr (Inr (Inr (H, h, ds, pv))) \<Rightarrow> lsize ds)"

definition call_rank :: "binder_call \<Rightarrow> nat" where
  "call_rank c =
     (case c of
        Inl (Inl (H, h, ds, sv)) \<Rightarrow> 6
      | Inl (Inr (Inl (H, h, ds, st, r, i))) \<Rightarrow> 5
      | Inl (Inr (Inr (H, h, field, d))) \<Rightarrow> 4
      | Inr (Inl (Inl (H, h, ds, sv))) \<Rightarrow> 2
      | Inr (Inl (Inr (H, h, ds, st, r))) \<Rightarrow> 1
      | Inr (Inr (Inl (H, h, d, st, r))) \<Rightarrow> 0
      | Inr (Inr (Inr (H, h, ds, pv))) \<Rightarrow> rank_pointer pv)"

definition call_fields :: "binder_call \<Rightarrow> nat" where
  "call_fields c = (case c of Inl (Inr (Inl (H, h, ds, st, r, i))) \<Rightarrow> NumField st - i | _ \<Rightarrow> 0)"

text \<open>The entry point.\<close>

definition Parse :: "hexparser \<Rightarrow> heap \<Rightarrow> val list \<Rightarrow> val \<Rightarrow> heap result" where
  "Parse H h decoded v = parseStruct H h decoded v"

text \<open>The scalar types: booleans, integers and strings, predeclared or defined.\<close>

definition is_scalar :: "gtype \<Rightarrow> bool" where
  "is_scalar t = (case kind_of t of KBool \<Rightarrow> True | KInt k \<Rightarrow> True | KString \<Rightarrow> True | _ \<Rightarrow> False)"

text \<open>
  What one call of \<^verbatim>\<open>parseSlice\<close> appends: \<open>appends_raw e\<close> says that an element
  type \<open>e\<close> takes the last branch of the loop body, which appends the node itself;
  \<open>appended e ds ys\<close> relates the decoded nodes \<open>ds\<close> to the elements \<open>ys\<close> appended
  for them.
\<close>

definition appends_raw :: "gtype \<Rightarrow> bool" where
  "appends_raw e =
     (\<not> (kind_of e = KPtr \<and> type_string (elem_of e) \<noteq> ''big.Int''
           \<and> type_string (elem_of e) \<noteq> ''common.Address'')
      \<and> kind_of e \<noteq> KStruct \<and> kind_of e \<noteq> KSlice \<and> kind_of e \<noteq> KArray)"

definition appended :: "gtype \<Rightarrow> val list \<Rightarrow> val list \<Rightarrow> bool" where
  "appended e ds ys =
     ((kind_of e \<noteq> KSlice \<and> kind_of e \<noteq> KArray \<longrightarrow> length ys = length ds)
      \<and> (appends_raw e \<longrightarrow> map Some ys = map (assignTo e) ds))"

text \<open>
  \<open>frame h r h'\<close>: the heap \<open>h'\<close> is \<open>h\<close> with the place \<open>r\<close> overwritten and new cells
  added; every other cell, and the cell of \<open>r\<close> outside \<open>r\<close>, is as it was.
\<close>

definition frame :: "heap \<Rightarrow> ref \<Rightarrow> heap \<Rightarrow> bool" where
  "frame h r h' =
     (length h \<le> length h' \<and> fst r < length h
      \<and> (\<forall>b < length h. b \<noteq> fst r \<longrightarrow> h' ! b = h ! b)
      \<and> (case get_path (h' ! fst r) (snd r) of
             None \<Rightarrow> False
           | Some x \<Rightarrow> put_path (h ! fst r) (snd r) x = Some (h' ! fst r)))"

text \<open>
  The loop of \<^verbatim>\<open>parseStruct\<close> taken field by field. \<open>field_at st r j\<close> is
  \<^verbatim>\<open>rve.Field(j)\<close> for the struct of type \<open>st\<close> at the place \<open>r\<close>;
  \<open>fields_bound H h decoded st r i n\<close> is the heap after the \<open>n\<close> fields from \<open>i\<close> on have
  been bound in turn, each on the heap its predecessor left, if each of them returned nil;
  \<open>set_if_nil\<close> is the statement
  \<^verbatim>\<open>if field.IsNil() { field.Set(reflect.New(field.Type().Elem())) }\<close> of line 38.
\<close>

definition field_at :: "gtype \<Rightarrow> ref \<Rightarrow> nat \<Rightarrow> rvalue" where
  "field_at st r j =
     Loc (snd (fields_of st ! j)) (fst r, snd r @ [j]) (\<not> exported (fst (fields_of st ! j)))"

fun fields_bound :: "hexparser \<Rightarrow> heap \<Rightarrow> val list \<Rightarrow> gtype \<Rightarrow> ref \<Rightarrow> nat \<Rightarrow> nat \<Rightarrow> heap option" where
  "fields_bound H h decoded st r i 0 = Some h"
| "fields_bound H h decoded st r i (Suc n) =
     (case parseStruct_field H h (field_at st r i) (decoded ! i) of
        Ok h1 \<Rightarrow> fields_bound H h1 decoded st r (Suc i) n
      | Err e \<Rightarrow> None
      | Panic c \<Rightarrow> None)"

definition set_if_nil :: "heap \<Rightarrow> gtype \<Rightarrow> ref \<Rightarrow> bool \<Rightarrow> heap result" where
  "set_if_nil h ft fr ro =
     (case load h fr of
        Some (VPtr t None) \<Rightarrow>
          (case reflect_New h (elem_of ft) of (h1, p) \<Rightarrow> Value_Set h1 (Loc ft fr ro) p)
      | Some v \<Rightarrow> Ok h
      | None \<Rightarrow> Panic NoSuchPlace)"

section \<open>Example targets\<close>

text \<open>A hex parser that answers the zero address, and the targets the examples bind
  into.\<close>

definition hex0 :: hexparser where
  "hex0 s = replicate 20 0"

definition Pair_t :: gtype where
  "Pair_t = TNamed ''main'' ''Pair'' (TStruct [(''A'', TInt U64), (''B'', TInt U64)])"

definition Record_t :: "ikind \<Rightarrow> ikind \<Rightarrow> gtype" where
  "Record_t k e =
     TNamed ''main'' ''Record''
       (TStruct [(''Id'', common_Address), (''Count'', TInt k), (''Values'', TSlice (TInt e))])"

definition Wallet_t :: gtype where
  "Wallet_t = TNamed ''main'' ''Wallet'' (TStruct [(''Amount'', TPtr big_Int)])"

definition Small_t :: gtype where
  "Small_t = TNamed ''main'' ''Small'' (TStruct [(''N'', TInt U8)])"

definition Box_t :: gtype where
  "Box_t = TNamed ''main'' ''Box'' (TStruct [(''P'', TPtr (TInt U64))])"

definition Outer_t :: gtype where
  "Outer_t = TNamed ''main'' ''Outer'' (TStruct [(''Inner'', Pair_t)])"

definition Trio_t :: gtype where
  "Trio_t =
     TNamed ''main'' ''Trio''
       (TStruct [(''N'', TInt U64), (''L'', TSlice (TInt U64)), (''P'', TPtr (TInt U64))])"

definition Grid_t :: gtype where
  "Grid_t = TSlice (TSlice (TInt U64))"

definition AnyBox_t :: gtype where
  "AnyBox_t = TNamed ''main'' ''AnyBox'' (TStruct [(''P'', TPtr TAny)])"

text \<open>Struct types of packages \<open>big\<close> and \<open>common\<close> of one's own that are named
  \<open>Int\<close> and \<open>Address\<close>, so that they print as \<^verbatim>\<open>big.Int\<close> and
  \<^verbatim>\<open>common.Address\<close>; a struct with three scalar fields; a struct with a slice of
  slices.\<close>

definition Big1_t :: gtype where
  "Big1_t = TNamed ''big'' ''Int'' (TStruct [(''V'', TInt U64)])"

definition Addr1_t :: gtype where
  "Addr1_t = TNamed ''common'' ''Address'' (TStruct [(''V'', TInt U64)])"

definition Steps_t :: gtype where
  "Steps_t =
     TNamed ''main'' ''Steps'' (TStruct [(''A'', TInt U64), (''B'', TInt U8), (''C'', TString)])"

definition GridBox_t :: gtype where
  "GridBox_t = TNamed ''main'' ''GridBox'' (TStruct [(''G'', Grid_t)])"

section \<open>Termination\<close>

text \<open>Every call descends in the decoded node tree, or keeps it and moves to a function of
  lower rank, or advances the field index.\<close>

lemma nsize_asList: "asList d = Some xs \<Longrightarrow> nsize d = Suc (lsize xs)"
  by (cases d) (auto simp: asList_def lsize_def split: if_splits)

lemma lsize_Nil: "lsize [] = 0"
  by (simp add: lsize_def)

lemma lsize_Cons: "lsize (d # ds) = Suc (nsize d + lsize ds)"
  by (simp add: lsize_def)

lemma lsize_nth: "i < length ds \<Longrightarrow> Suc (nsize (ds ! i)) \<le> lsize ds"
proof (induction ds arbitrary: i)
  case Nil
  then show ?case by simp
next
  case (Cons d ds)
  show ?case
  proof (cases i)
    case 0
    then show ?thesis by (simp add: lsize_Cons)
  next
    case (Suc j)
    with Cons.prems have "j < length ds" by simp
    from Cons.IH [OF this] Suc show ?thesis by (simp add: lsize_Cons)
  qed
qed

termination parseStruct
  apply (relation "measures [call_nodes, call_rank, call_fields]")
  apply (simp_all add: call_nodes_def call_rank_def call_fields_def rank_pointer_def lsize_Nil
      lsize_Cons nsize_asList)
  apply (use lsize_nth in \<open>force simp: le_less\<close>)
  apply auto
  done

declare parseStruct.simps [simp del] parseStruct_fields.simps [simp del]
  parseStruct_field.simps [simp del] parseSlice.simps [simp del] parseSlice_loop.simps [simp del]
  parseSlice_elem.simps [simp del] parsePointer.simps [simp del]

section \<open>Places and the heap\<close>

lemma load_append_last: "load (h @ [c]) (length h, p) = get_path c p"
  by (simp add: load_def)

lemma store_append_last:
  "store (h @ [c]) (length h, p) x =
     (case put_path c p x of None \<Rightarrow> None | Some c' \<Rightarrow> Some (h @ [c']))"
  by (simp add: store_def split: option.split)

lemma put_path_total: "get_path v p = Some old \<Longrightarrow> \<exists>v'. put_path v p x = Some v'"
proof (induction v p arbitrary: old rule: get_path.induct)
  case (2 t fs i p)
  then show ?case by (auto split: if_splits)
qed simp_all

lemma get_put_path: "put_path v p x = Some v' \<Longrightarrow> get_path v' p = Some x"
proof (induction v p x arbitrary: v' rule: put_path.induct)
  case (2 t fs i p x)
  then show ?case by (auto split: if_splits option.splits)
qed simp_all

lemma put_get_same: "get_path v p = Some x \<Longrightarrow> put_path v p x = Some v"
proof (induction v p arbitrary: x rule: get_path.induct)
  case (2 t fs i p)
  then show ?case by (auto split: if_splits)
qed simp_all

lemma put_put: "put_path v p x = Some v1 \<Longrightarrow> put_path v1 p y = Some v2 \<Longrightarrow> put_path v p y = Some v2"
proof (induction v p x arbitrary: v1 v2 rule: put_path.induct)
  case (2 t fs i p x)
  then show ?case by (auto split: if_splits option.splits)
qed simp_all

lemma put_sub: "put_path v (p @ q) x = Some v' \<Longrightarrow> \<exists>y. put_path v p y = Some v'"
proof (induction v p x arbitrary: v' rule: put_path.induct)
  case (2 t fs i p x)
  then show ?case by (fastforce split: if_splits option.splits)
qed auto

lemma get_path_append:
  "get_path v p = Some (VStruct T fs) \<Longrightarrow> i < length fs \<Longrightarrow> get_path v (p @ [i]) = Some (fs ! i)"
proof (induction v p rule: get_path.induct)
  case (2 t fs' j p)
  then show ?case by (auto split: if_splits)
qed simp_all

lemma put_sibling:
  "put_path v (p @ [i]) x = Some v' \<Longrightarrow> get_path v p = Some (VStruct T fs) \<Longrightarrow>
   get_path v' p = Some (VStruct T (fs[i := x]))"
proof (induction v p arbitrary: v' rule: get_path.induct)
  case (1 v)
  then show ?case by (auto split: if_splits option.splits)
next
  case (2 t fs' j p)
  then show ?case by (auto split: if_splits option.splits)
qed simp_all

lemma store_total: "load h r = Some old \<Longrightarrow> \<exists>h'. store h r x = Some h'"
  using put_path_total [of "h ! fst r" "snd r" old x]
  by (auto simp: load_def store_def split: if_splits)

lemma load_store: "store h r x = Some h' \<Longrightarrow> load h' r = Some x"
  using get_put_path [of "h ! fst r" "snd r" x]
  by (auto simp: load_def store_def split: if_splits option.splits)

lemma length_store: "store h r x = Some h' \<Longrightarrow> length h' = length h"
  by (auto simp: store_def split: if_splits option.splits)

lemma load_append: "load h r = Some v \<Longrightarrow> load (h @ ext) r = Some v"
  by (auto simp: load_def nth_append split: if_splits)

lemma store_append: "store h r x = Some h' \<Longrightarrow> store (h @ ext) r x = Some (h' @ ext)"
  by (auto simp: store_def nth_append list_update_append split: if_splits option.splits)

lemma load_field:
  "load h (a, p) = Some (VStruct T fs) \<Longrightarrow> i < length fs \<Longrightarrow> load h (a, p @ [i]) = Some (fs ! i)"
  using get_path_append [of "h ! a" p T fs i] by (auto simp: load_def split: if_splits)

lemma load_valid: "load h r = Some v \<Longrightarrow> fst r < length h"
  by (auto simp: load_def split: if_splits)

lemma load_new_cell: "load (h @ [c]) (length h, []) = Some c"
  by (simp add: load_def)

lemma store_keeps_other:
  "store h r x = Some h' \<Longrightarrow> b \<noteq> fst r \<Longrightarrow> load h' (b, q) = load h (b, q)"
  by (auto simp: store_def load_def split: if_splits option.splits)

section \<open>Frames\<close>

text \<open>A bind changes the place it is given and adds cells; the lemmas compose such changes.\<close>

lemma frame_alt:
  "frame h r h' =
     (length h \<le> length h' \<and> fst r < length h
      \<and> (\<forall>b < length h. b \<noteq> fst r \<longrightarrow> h' ! b = h ! b)
      \<and> (\<exists>x. put_path (h ! fst r) (snd r) x = Some (h' ! fst r)))"
  unfolding frame_def using get_put_path [of "h ! fst r" "snd r" _ "h' ! fst r"]
  by (auto split: option.splits)

lemma frame_refl: "load h r = Some v \<Longrightarrow> frame h r h"
  using put_get_same [of "h ! fst r" "snd r" v]
  by (auto simp: frame_alt load_def split: if_splits)

lemma frame_store: "store h r x = Some h' \<Longrightarrow> frame h r h'"
  by (auto simp: frame_alt store_def split: if_splits option.splits)

lemma frame_trans: "frame h r h1 \<Longrightarrow> frame h1 r h2 \<Longrightarrow> frame h r h2"
  unfolding frame_alt using put_put [of "h ! fst r" "snd r" _ "h1 ! fst r" _ "h2 ! fst r"]
  by (auto; metis)

lemma frame_sub: "frame h (a, p @ q) h' \<Longrightarrow> frame h (a, p) h'"
  unfolding frame_alt using put_sub [of "h ! a" p q _ "h' ! a"] by auto

lemma frame_alloc: "load h r = Some v \<Longrightarrow> frame h r (h @ ext)"
  using put_get_same [of "h ! fst r" "snd r" v]
  by (auto simp: frame_alt load_def nth_append split: if_splits)

lemma frame_fresh:
  "frame h r h1 \<Longrightarrow> frame h1 (b, q) h2 \<Longrightarrow> length h \<le> b \<Longrightarrow> frame h r h2"
  unfolding frame_alt by (auto; metis (no_types) le_trans less_le_trans not_le)

lemma load_frame_other:
  "frame h (a, p) h' \<Longrightarrow> b \<noteq> a \<Longrightarrow> b < length h \<Longrightarrow> load h' (b, q) = load h (b, q)"
  by (auto simp: frame_alt load_def)

lemma load_frame_sibling:
  "frame h (a, p @ [i]) h' \<Longrightarrow> load h (a, p) = Some (VStruct T fs) \<Longrightarrow>
   \<exists>y. load h' (a, p) = Some (VStruct T (fs[i := y]))"
  unfolding frame_alt load_def using put_sibling [of "h ! a" p i _ "h' ! a" T fs]
  by (auto split: if_splits)

lemma frame_after_new:
  assumes ld: "load h fr = Some v"
    and st: "store (h @ [c]) fr y = Some x1"
    and fr: "frame x1 (length h, []) h'"
  shows "frame h fr h'"
proof -
  have "frame h fr (h @ [c])" by (rule frame_alloc [OF ld])
  moreover have "frame (h @ [c]) fr x1" by (rule frame_store [OF st])
  ultimately have "frame h fr x1" by (rule frame_trans)
  then show ?thesis using fr by (rule frame_fresh) simp
qed

lemma new_cell_kept:
  assumes ld: "load h fr = Some v" and st: "store (h @ [c]) fr y = Some x1"
  shows "load x1 (length h, []) = Some c"
proof -
  from load_valid [OF ld] have "length h \<noteq> fst fr" by simp
  from store_keeps_other [OF st this, of "[]"] show ?thesis by (simp add: load_new_cell)
qed

section \<open>Types, zero values, assignment and conversion\<close>

lemma int_not_Address: "TrimPrefix_star (type_string (TInt k)) \<noteq> ''common.Address''"
  by (cases k) (simp_all add: TrimPrefix_star_def)

lemma scalar_has_name: "is_scalar t \<Longrightarrow> has_name t"
  by (cases t) (simp_all add: is_scalar_def)

lemma unnamed_kind: "\<not> has_name t \<Longrightarrow> \<not> is_scalar t"
  using scalar_has_name by blast

lemma scalar_kinds:
  "is_scalar t \<Longrightarrow> kind_of t \<noteq> KPtr \<and> kind_of t \<noteq> KStruct \<and> kind_of t \<noteq> KSlice
     \<and> kind_of t \<noteq> KArray \<and> kind_of t \<noteq> KInterface"
  by (auto simp: is_scalar_def)

lemma scalar_kind_cong: "is_scalar t \<Longrightarrow> kind_of v = kind_of t \<Longrightarrow> is_scalar v"
  by (simp add: is_scalar_def)

lemma scalar_not_assignable: "is_scalar ft \<Longrightarrow> vt \<noteq> ft \<Longrightarrow> \<not> directlyAssignable ft vt"
  using scalar_has_name [of ft] scalar_has_name [of vt] scalar_kind_cong [of ft vt]
  by (auto simp: directlyAssignable_def)

lemma scalar_assignTo_None:
  "is_scalar ft \<Longrightarrow> typeof x = Some vt \<Longrightarrow> vt \<noteq> ft \<Longrightarrow> assignTo ft x = None"
  using scalar_not_assignable [of ft vt] scalar_kinds [of ft]
  by (simp add: assignTo_def)

lemma scalar_not_special_elem:
  "TrimPrefix_star (type_string ft) \<noteq> ''common.Address'' \<Longrightarrow> type_string ft \<noteq> ''common.Address''"
  by (auto simp: TrimPrefix_star_def)

lemma convertOp_ints:
  "kind_of ft = KInt k \<Longrightarrow> kind_of vt = KInt k' \<Longrightarrow> convertOp ft vt = Some cvtInt"
  by (simp add: convertOp_def)

lemma convertOp_cvtInt_dst: "convertOp ft vt = Some cvtInt \<Longrightarrow> \<exists>k. kind_of ft = KInt k"
  by (auto simp: convertOp_def Let_def split: kind.splits if_splits)

lemma convertOp_cvtT2I_dst: "convertOp ft vt = Some cvtT2I \<Longrightarrow> kind_of ft = KInterface"
  by (auto simp: convertOp_def Let_def split: kind.splits if_splits)

lemma typeof_retag: "typeof d = Some vt \<Longrightarrow> typeof (retag ft d) = Some ft"
  by (cases d) simp_all

lemma typeof_apply_cvt:
  "is_scalar ft \<Longrightarrow> typeof d = Some vt \<Longrightarrow> convertOp ft vt = Some c \<Longrightarrow>
   typeof (apply_cvt c ft d) = Some ft"
  using convertOp_cvtInt_dst [of ft vt] convertOp_cvtT2I_dst [of ft vt] scalar_kinds [of ft]
  by (cases c) (auto simp: typeof_retag)

lemma assignTo_same: "typeof x = Some t \<Longrightarrow> assignTo t x = Some x"
  by (cases x) (simp_all add: assignTo_def directlyAssignable_def)

lemma assignTo_ptr:
  "kind_of ft = KPtr \<Longrightarrow> assignTo ft (VPtr T q) = Some y \<Longrightarrow> y = VPtr ft q"
  by (auto simp: assignTo_def split: if_splits)

lemma zero_as_struct:
  "kind_of u = KStruct \<Longrightarrow> zero_as T u = VStruct T (map (\<lambda>f. zero (snd f)) (fields_of u))"
  by (induction T u rule: zero_as.induct) (simp_all add: zero_def)

lemma zero_struct: "kind_of t = KStruct \<Longrightarrow> zero t = VStruct t (map (\<lambda>f. zero (snd f)) (fields_of t))"
  using zero_as_struct [of t t] by (simp add: zero_def)

lemma zero_as_ptr: "kind_of u = KPtr \<Longrightarrow> zero_as T u = VPtr T None"
  by (induction T u rule: zero_as.induct) simp_all

lemma zero_ptr: "kind_of t = KPtr \<Longrightarrow> zero t = VPtr t None"
  using zero_as_ptr [of t t] by (simp add: zero_def)

lemma zero_as_slice: "kind_of u = KSlice \<Longrightarrow> zero_as T u = VSlice T []"
  by (induction T u rule: zero_as.induct) simp_all

lemma zero_slice: "kind_of t = KSlice \<Longrightarrow> zero t = VSlice t []"
  using zero_as_slice [of t t] by (simp add: zero_def)

lemma wrap_int_42: "wrap_int k 42 = 42"
  by (cases k) (simp_all add: wrap_int_def)

lemma appended_Nil: "appended e [] []"
  by (simp add: appended_def)

lemma appended_Cons: "appended e [d] ys1 \<Longrightarrow> appended e ds ys2 \<Longrightarrow> appended e (d # ds) (ys1 @ ys2)"
  by (auto simp: appended_def)

section \<open>Reflective operations\<close>

lemma Value_Set_typed:
  "typeof x = Some t \<Longrightarrow> load h fr = Some old \<Longrightarrow>
   \<exists>h'. Value_Set h (Loc t fr False) x = Ok h' \<and> store h fr x = Some h' \<and> load h' fr = Some x"
  using store_total [of h fr old x] load_store [of h fr x]
  by (auto simp: assignTo_same)

lemma Value_Set_Ok:
  "Value_Set h (Loc t r ro) x = Ok h' \<Longrightarrow> \<not> ro \<and> (\<exists>y. assignTo t x = Some y \<and> store h r y = Some h')"
  by (auto split: if_splits option.splits)

lemma Value_Set_frame: "Value_Set h (Loc t r ro) x = Ok h' \<Longrightarrow> frame h r h'"
  using Value_Set_Ok [of h t r ro x h'] frame_store by blast

lemma Value_Set_not_Err: "Value_Set h f x \<noteq> Err e"
  by (cases f) (auto split: option.splits)

lemma Value_Addr_Interface_not_Err: "Value_Addr_Interface f \<noteq> Err e"
  by (cases f) auto

lemma Append_Set_Ok:
  "load h r = Some (VSlice t xs) \<Longrightarrow> Append_Set h st r x = Ok h' \<Longrightarrow>
   \<exists>y. assignTo (elem_of st) x = Some y \<and> store h r (VSlice t (xs @ [y])) = Some h'"
  by (auto simp: Append_Set_def split: option.splits)

lemma reflect_New_eq: "reflect_New h t = (h @ [zero t], VPtr (TPtr t) (Some (length h, [])))"
  by (simp add: reflect_New_def alloc_def)

lemma wrap_Ok: "wrap s c n res = Ok x \<longleftrightarrow> res = Ok x"
  by (cases res) (simp_all add: wrap_def)

lemma wrap_Err: "wrap s c n res = Err e \<Longrightarrow> \<exists>e'. e = Wrapped s c n e'"
  by (cases res) (auto simp: wrap_def)

lemma wrap_not_CountMismatch: "wrap s c n res \<noteq> Err CountMismatch"
  by (cases res) (simp_all add: wrap_def)

lemma wrap_Err_iff: "wrap s c n res = Err e \<longleftrightarrow> (\<exists>e'. res = Err e' \<and> e = Wrapped s c n e')"
  by (cases res) (auto simp: wrap_def)

lemma Value_Interface_not_Err: "Value_Interface h f \<noteq> Err e"
  by (cases f) (auto split: option.splits)

lemma set_if_nil_not_Err: "set_if_nil h ft fr ro \<noteq> Err e"
  unfolding set_if_nil_def using Value_Set_not_Err
  by (auto split: option.splits val.splits prod.splits simp del: Value_Set.simps)

section \<open>The branches of the binders\<close>

text \<open>One equation for each branch of the dispatch on a field, and what follows from them for the errors a field can return.\<close>

lemmas binder_simps = parseStruct.simps parseStruct_fields.simps parseStruct_field.simps
  parseSlice.simps parseSlice_loop.simps parseSlice_elem.simps parsePointer.simps

lemmas reflect_defs = NumField_def load_def store_def exported_def asString_def asList_def
  TrimPrefix_star_def directlyAssignable_def assignTo_def Address_val_def Append_Set_def wrap_def
  convertOp_def zero_def reflect_New_def alloc_def isBytes_def isBigInt_def

lemma field_ptr_struct:
  "kind_of ft = KPtr \<Longrightarrow> type_string (elem_of ft) \<noteq> ''big.Int'' \<Longrightarrow>
   type_string (elem_of ft) \<noteq> ''common.Address'' \<Longrightarrow> kind_of (elem_of ft) = KStruct \<Longrightarrow>
   parseStruct_field H h (Loc ft fr ro) d =
     wrap In_parseStruct PointerField (type_name ft)
       (case (case load h fr of
                Some (VPtr t None) \<Rightarrow>
                  (case reflect_New h (elem_of ft) of (h1, p) \<Rightarrow> Value_Set h1 (Loc ft fr ro) p)
              | Some v \<Rightarrow> Ok h
              | None \<Rightarrow> Panic NoSuchPlace) of
          Ok h1 \<Rightarrow>
            (case asList d of
               None \<Rightarrow> Panic TypeAssertion
             | Some xs \<Rightarrow>
                 (case Value_Interface h1 (Loc ft fr ro) of
                    Ok p \<Rightarrow> parseStruct H h1 xs p
                  | Err e \<Rightarrow> Err e
                  | Panic c \<Rightarrow> Panic c))
        | Err e \<Rightarrow> Err e
        | Panic c \<Rightarrow> Panic c)"
  by (simp add: parseStruct_field.simps)

lemma field_ptr_other:
  "kind_of ft = KPtr \<Longrightarrow> type_string (elem_of ft) \<noteq> ''big.Int'' \<Longrightarrow>
   type_string (elem_of ft) \<noteq> ''common.Address'' \<Longrightarrow> kind_of (elem_of ft) \<noteq> KStruct \<Longrightarrow>
   parseStruct_field H h (Loc ft fr ro) d =
     wrap In_parseStruct PointerField (type_name ft) (parsePointer H h [d] (Loc ft fr ro))"
  by (simp add: parseStruct_field.simps)

lemma field_struct:
  "kind_of ft = KStruct \<Longrightarrow>
   parseStruct_field H h (Loc ft fr ro) d =
     (case asList d of
        None \<Rightarrow> Panic TypeAssertion
      | Some xs \<Rightarrow>
          (case Value_Addr_Interface (Loc ft fr ro) of
             Ok p \<Rightarrow> wrap In_parseStruct StructField (type_name ft) (parseStruct H h xs p)
           | Err e \<Rightarrow> Err e
           | Panic c \<Rightarrow> Panic c))"
  by (simp add: parseStruct_field.simps)

lemma field_slice:
  "kind_of ft = KSlice \<or> kind_of ft = KArray \<Longrightarrow>
   parseStruct_field H h (Loc ft fr ro) d =
     (case typeof d of
        None \<Rightarrow> Panic NilDereference
      | Some vType \<Rightarrow>
          if type_string vType = ''[]uint8'' \<or> type_string vType = ''[]byte'' then
            (if isBytes d then Value_Set h (Loc ft fr ro) d else Panic TypeAssertion)
          else if type_string vType = ''string'' then
            (if TrimPrefix_star (type_string ft) = ''common.Address'' then
               (case asString d of
                  None \<Rightarrow> Panic TypeAssertion
                | Some s \<Rightarrow> Value_Set h (Loc ft fr ro) (Address_val (H s)))
             else Value_Set h (Loc ft fr ro) d)
          else
            (case asList d of
               None \<Rightarrow> Panic TypeAssertion
             | Some xs \<Rightarrow>
                 (case Value_Addr_Interface (Loc ft fr ro) of
                    Ok p \<Rightarrow> wrap In_parseStruct SliceField (type_name ft) (parseSlice H h xs p)
                  | Err e \<Rightarrow> Err e
                  | Panic c \<Rightarrow> Panic c)))"
  by (auto simp add: parseStruct_field.simps)

lemma field_bigint:
  "kind_of ft = KPtr \<Longrightarrow> type_string (elem_of ft) = ''big.Int'' \<Longrightarrow>
   parseStruct_field H h (Loc ft fr ro) d =
     (if isBigInt d then Value_Set h (Loc ft fr ro) d else Err (ExpectedBigInt (typeof d)))"
  by (simp add: parseStruct_field.simps)

lemma field_address_ptr:
  "kind_of ft = KPtr \<Longrightarrow> type_string (elem_of ft) = ''common.Address'' \<Longrightarrow>
   parseStruct_field H h (Loc ft fr ro) d =
     (case asString d of
        None \<Rightarrow> Panic TypeAssertion
      | Some s \<Rightarrow>
          (case alloc h (Address_val (H s)) of
             (h1, a) \<Rightarrow> Value_Set h1 (Loc ft fr ro) (VPtr (TPtr common_Address) (Some a))))"
  by (simp add: parseStruct_field.simps)

lemma field_address:
  "kind_of ft \<noteq> KPtr \<Longrightarrow> kind_of ft \<noteq> KStruct \<Longrightarrow> kind_of ft \<noteq> KSlice \<Longrightarrow>
   kind_of ft \<noteq> KArray \<Longrightarrow> TrimPrefix_star (type_string ft) = ''common.Address'' \<Longrightarrow>
   parseStruct_field H h (Loc ft fr ro) d =
     (case asString d of
        None \<Rightarrow> Panic TypeAssertion
      | Some s \<Rightarrow> Value_Set h (Loc ft fr ro) (Address_val (H s)))"
  by (simp add: parseStruct_field.simps)

lemma field_scalar:
  "kind_of ft \<noteq> KPtr \<Longrightarrow> kind_of ft \<noteq> KStruct \<Longrightarrow> kind_of ft \<noteq> KSlice \<Longrightarrow> kind_of ft \<noteq> KArray \<Longrightarrow>
   TrimPrefix_star (type_string ft) \<noteq> ''common.Address'' \<Longrightarrow>
   parseStruct_field H h (Loc ft fr ro) d =
     (case typeof d of
        None \<Rightarrow> Panic ReflectPanic
      | Some vt \<Rightarrow>
          if vt \<noteq> ft then
            (case convertOp ft vt of
               Some c \<Rightarrow> Value_Set h (Loc ft fr ro) (apply_cvt c ft d)
             | None \<Rightarrow> Err (CannotConvert vt ft))
          else Value_Set h (Loc ft fr ro) d)"
  by (simp add: parseStruct_field.simps)

lemma elem_nested:
  "kind_of (elem_of st) = KSlice \<or> kind_of (elem_of st) = KArray \<Longrightarrow>
   parseSlice_elem H h d st r =
     (case asList d of
        None \<Rightarrow> Panic TypeAssertion
      | Some xs \<Rightarrow>
          wrap In_parseSlice SliceField (type_name st) (parseSlice H h xs (VPtr (TPtr st) (Some r))))"
  by (auto simp: parseSlice_elem.simps)

lemma parseSlice_loop_append:
  "parseSlice_loop H h (ds1 @ ds2) st r =
     (case parseSlice_loop H h ds1 st r of
        Ok h1 \<Rightarrow> parseSlice_loop H h1 ds2 st r
      | Err e \<Rightarrow> Err e
      | Panic c \<Rightarrow> Panic c)"
proof (induction ds1 arbitrary: h)
  case Nil
  show ?case by (simp add: parseSlice_loop.simps)
next
  case (Cons d ds1)
  show ?case
    by (cases "parseSlice_elem H h d st r") (simp_all add: parseSlice_loop.simps Cons.IH)
qed

lemma field_error_shape:
  assumes "parseStruct_field H h (Loc ft fr ro) d = Err e"
  shows "(\<exists>c n e'. e = Wrapped In_parseStruct c n e') \<or> (\<exists>t. e = ExpectedBigInt t)
         \<or> (\<exists>vt. e = CannotConvert vt ft)"
proof -
  consider (ptr_struct) "kind_of ft = KPtr" "type_string (elem_of ft) \<noteq> ''big.Int''"
      "type_string (elem_of ft) \<noteq> ''common.Address''" "kind_of (elem_of ft) = KStruct"
    | (ptr_other) "kind_of ft = KPtr" "type_string (elem_of ft) \<noteq> ''big.Int''"
      "type_string (elem_of ft) \<noteq> ''common.Address''" "kind_of (elem_of ft) \<noteq> KStruct"
    | (struct) "kind_of ft = KStruct"
    | (slice) "kind_of ft = KSlice \<or> kind_of ft = KArray"
    | (bigint) "kind_of ft = KPtr" "type_string (elem_of ft) = ''big.Int''"
    | (address_ptr) "kind_of ft = KPtr" "type_string (elem_of ft) = ''common.Address''"
    | (address) "kind_of ft \<noteq> KPtr" "kind_of ft \<noteq> KStruct" "kind_of ft \<noteq> KSlice"
      "kind_of ft \<noteq> KArray" "TrimPrefix_star (type_string ft) = ''common.Address''"
    | (scalar) "kind_of ft \<noteq> KPtr" "kind_of ft \<noteq> KStruct" "kind_of ft \<noteq> KSlice"
      "kind_of ft \<noteq> KArray" "TrimPrefix_star (type_string ft) \<noteq> ''common.Address''"
    by blast
  then show ?thesis
  proof cases
    case ptr_struct
    from assms show ?thesis
      unfolding field_ptr_struct [OF ptr_struct] by (blast dest: wrap_Err)
  next
    case ptr_other
    from assms show ?thesis
      unfolding field_ptr_other [OF ptr_other] by (blast dest: wrap_Err)
  next
    case struct
    from assms show ?thesis
      unfolding field_struct [OF struct]
      by (auto split: option.splits result.splits dest: wrap_Err simp: Value_Addr_Interface_not_Err
          simp del: Value_Addr_Interface.simps)
  next
    case slice
    from assms show ?thesis
      unfolding field_slice [OF slice]
      by (auto split: option.splits result.splits if_splits dest: wrap_Err
          simp: Value_Addr_Interface_not_Err Value_Set_not_Err
          simp del: Value_Addr_Interface.simps Value_Set.simps)
  next
    case bigint
    from assms show ?thesis
      unfolding field_bigint [OF bigint]
      by (auto split: if_splits simp: Value_Set_not_Err simp del: Value_Set.simps)
  next
    case address_ptr
    from assms show ?thesis
      unfolding field_address_ptr [OF address_ptr]
      by (auto split: option.splits prod.splits simp: Value_Set_not_Err simp del: Value_Set.simps)
  next
    case address
    from assms show ?thesis
      unfolding field_address [OF address]
      by (auto split: option.splits simp: Value_Set_not_Err simp del: Value_Set.simps)
  next
    case scalar
    from assms show ?thesis
      unfolding field_scalar [OF scalar]
      by (auto split: option.splits if_splits simp: Value_Set_not_Err simp del: Value_Set.simps)
  qed
qed

lemma parseStruct_field_not_CountMismatch: "parseStruct_field H h f d \<noteq> Err CountMismatch"
proof (cases f)
  case (Imm v)
  then show ?thesis by (simp add: parseStruct_field.simps)
next
  case (Loc ft fr ro)
  show ?thesis
    using field_error_shape [of H h ft fr ro d CountMismatch] unfolding Loc by auto
qed

lemma parseStruct_fields_not_CountMismatch:
  "parseStruct_fields H h decoded st r i \<noteq> Err CountMismatch"
proof (induction "NumField st - i" arbitrary: i h)
  case 0
  then show ?case by (simp add: parseStruct_fields.simps)
next
  case (Suc n)
  then have "n = NumField st - Suc i" by simp
  from Suc.hyps(1) [OF this] show ?case
    using parseStruct_field_not_CountMismatch
    by (subst parseStruct_fields.simps) (auto split: result.split)
qed

lemma parsePointer_scalar:
  assumes sc: "is_scalar ft" and ld: "load h fp = Some (VPtr t' q)"
  shows "parsePointer H h ds (Loc (TPtr ft) fp ro) = Panic ReflectPanic"
proof -
  note k = scalar_kinds [OF sc]
  have "TSlice TAny \<noteq> ft"
    using sc by (auto simp: is_scalar_def)
  then have na: "assignTo ft (VSlice (TSlice TAny) ds) = None"
    using scalar_assignTo_None [OF sc, of "VSlice (TSlice TAny) ds" "TSlice TAny"] by simp
  show ?thesis
  proof (cases q)
    case (Some p)
    with ld k na show ?thesis
      by (simp add: parsePointer.simps)
  next
    case None
    show ?thesis
    proof (cases ro)
      case True
      with ld None k show ?thesis
        by (simp add: parsePointer.simps reflect_New_def alloc_def)
    next
      case False
      let ?h1 = "h @ [zero ft]"
      let ?p = "VPtr (TPtr ft) (Some (length h, []))"
      from store_total [OF ld] obtain h2 where st: "store h fp ?p = Some h2" by blast
      have st': "store ?h1 fp ?p = Some (h2 @ [zero ft])" by (rule store_append [OF st])
      have ld': "load (h2 @ [zero ft]) fp = Some ?p" by (rule load_store [OF st'])
      from ld None k na False st' ld' show ?thesis
        by (simp add: parsePointer.simps reflect_New_def alloc_def assignTo_def directlyAssignable_def)
    qed
  qed
qed

lemma nested_loop_unchanged:
  assumes "kind_of (elem_of st) = KSlice \<or> kind_of (elem_of st) = KArray"
  shows "parseSlice_loop H h ds st r = Ok h' \<Longrightarrow> h' = h"
proof (induction "lsize ds" arbitrary: ds h' rule: less_induct)
  case less
  show ?case
  proof (cases ds)
    case Nil
    with less.prems show ?thesis by (simp add: parseSlice_loop.simps)
  next
    case (Cons d rest)
    from less.prems obtain h1 where e: "parseSlice_elem H h d st r = Ok h1"
      and l: "parseSlice_loop H h1 rest st r = Ok h'"
      unfolding Cons by (subst (asm) parseSlice_loop.simps) (auto split: result.splits)
    from e obtain xs where xs: "asList d = Some xs"
      and "parseSlice H h xs (VPtr (TPtr st) (Some r)) = Ok h1"
      unfolding elem_nested [OF assms] by (auto split: option.splits simp: wrap_Ok)
    then have "parseSlice_loop H h xs st r = Ok h1"
      by (simp add: parseSlice.simps split: if_splits)
    moreover have "lsize xs < lsize ds"
      unfolding Cons by (simp add: lsize_Cons nsize_asList [OF xs])
    ultimately have "h1 = h" by (rule less.hyps [rotated])
    moreover have "lsize rest < lsize ds"
      unfolding Cons by (simp add: lsize_Cons)
    ultimately show ?thesis using l less.hyps [of rest h'] by simp
  qed
qed

text \<open>The loop over the fields, one field at a time; what it reads of the node list; and
  the error of a field, by the branch that returned it.\<close>

lemma fields_bound_step:
  "parseStruct_field H h (field_at st r i) (decoded ! i) = Ok h1 \<Longrightarrow>
   fields_bound H h decoded st r i (Suc n) = fields_bound H h1 decoded st r (Suc i) n"
  by simp

lemma fields_bound_stop:
  "\<forall>h1. parseStruct_field H h (field_at st r i) (decoded ! i) \<noteq> Ok h1 \<Longrightarrow>
   fields_bound H h decoded st r i (Suc n) = None"
  by (cases "parseStruct_field H h (field_at st r i) (decoded ! i)") simp_all

lemma fields_bound_prefix:
  "\<forall>k. i \<le> k \<and> k < i + n \<longrightarrow> ds' ! k = ds ! k \<Longrightarrow>
   fields_bound H h ds' st r i n = fields_bound H h ds st r i n"
proof (induction n arbitrary: i h)
  case 0
  show ?case by simp
next
  case (Suc n)
  from Suc.prems have "ds' ! i = ds ! i" by simp
  moreover have "fields_bound H h1 ds' st r (Suc i) n = fields_bound H h1 ds st r (Suc i) n" for h1
    using Suc.prems by (intro Suc.IH) simp
  ultimately show ?case by (simp split: result.splits)
qed

lemma parseStruct_fields_step:
  "i < NumField st \<Longrightarrow> i < length decoded \<Longrightarrow>
   parseStruct_fields H h decoded st r i =
     (case parseStruct_field H h (field_at st r i) (decoded ! i) of
        Ok h' \<Rightarrow> parseStruct_fields H h' decoded st r (Suc i)
      | Err e \<Rightarrow> Err e
      | Panic c \<Rightarrow> Panic c)"
  by (subst parseStruct_fields.simps) (simp add: field_at_def)

lemma parseStruct_fields_Err_iff:
  "parseStruct_fields H h decoded st r i = Err e \<longleftrightarrow>
     (\<exists>j h'. i \<le> j \<and> j < NumField st \<and> j < length decoded
        \<and> fields_bound H h decoded st r i (j - i) = Some h'
        \<and> parseStruct_field H h' (field_at st r j) (decoded ! j) = Err e)"
proof (induction "NumField st - i" arbitrary: i h)
  case 0
  then have "\<not> i < NumField st" by simp
  then show ?case by (subst parseStruct_fields.simps) auto
next
  case (Suc n)
  from Suc.hyps(2) have i: "i < NumField st" and n: "n = NumField st - Suc i" by simp_all
  note ih = Suc.hyps(1) [OF n]
  let ?R = "\<lambda>h i. \<exists>j h'. i \<le> j \<and> j < NumField st \<and> j < length decoded
        \<and> fields_bound H h decoded st r i (j - i) = Some h'
        \<and> parseStruct_field H h' (field_at st r j) (decoded ! j) = Err e"
  show ?case
  proof (cases "i < length decoded")
    case False
    with i show ?thesis by (subst parseStruct_fields.simps) auto
  next
    case len: True
    note step = parseStruct_fields_step [OF i len, of H h r]
    have split: "?R h i \<longleftrightarrow>
        parseStruct_field H h (field_at st r i) (decoded ! i) = Err e
        \<or> (\<exists>j h'. Suc i \<le> j \<and> j < NumField st \<and> j < length decoded
              \<and> fields_bound H h decoded st r i (Suc (j - Suc i)) = Some h'
              \<and> parseStruct_field H h' (field_at st r j) (decoded ! j) = Err e)"
      (is "_ \<longleftrightarrow> ?A \<or> ?B")
    proof
      assume "?R h i"
      then obtain j h' where j: "i \<le> j" "j < NumField st" "j < length decoded"
        and b: "fields_bound H h decoded st r i (j - i) = Some h'"
        and f: "parseStruct_field H h' (field_at st r j) (decoded ! j) = Err e" by blast
      show "?A \<or> ?B"
      proof (cases "j = i")
        case True
        with b f show ?thesis by simp
      next
        case False
        with j have "Suc i \<le> j" "j - i = Suc (j - Suc i)" by simp_all
        with j b f have ?B by metis
        then show ?thesis ..
      qed
    next
      assume "?A \<or> ?B"
      then show "?R h i"
      proof
        assume ?A
        with i len show ?thesis by (intro exI [of _ i] exI [of _ h]) simp
      next
        assume ?B
        then obtain j h' where j: "Suc i \<le> j" "j < NumField st" "j < length decoded"
          and b: "fields_bound H h decoded st r i (Suc (j - Suc i)) = Some h'"
          and f: "parseStruct_field H h' (field_at st r j) (decoded ! j) = Err e" by blast
        from j have "i \<le> j" "j - i = Suc (j - Suc i)" by simp_all
        with j b f show ?thesis by metis
      qed
    qed
    show ?thesis
    proof (cases "parseStruct_field H h (field_at st r i) (decoded ! i)")
      case (Ok h1)
      then have "parseStruct_fields H h decoded st r i = parseStruct_fields H h1 decoded st r (Suc i)"
        by (simp add: step)
      also have "\<dots> = Err e \<longleftrightarrow> ?R h1 (Suc i)" by (rule ih)
      also have "\<dots> \<longleftrightarrow> ?R h i"
        unfolding split using Ok by (simp del: fields_bound.simps add: fields_bound_step [OF Ok])
      finally show ?thesis .
    next
      case (Err e1)
      then have "\<forall>h1. parseStruct_field H h (field_at st r i) (decoded ! i) \<noteq> Ok h1" by simp
      note stop = fields_bound_stop [OF this]
      from Err have "parseStruct_fields H h decoded st r i = Err e \<longleftrightarrow> e1 = e"
        by (simp add: step)
      also have "\<dots> \<longleftrightarrow> ?R h i"
        unfolding split using Err by (simp del: fields_bound.simps add: stop)
      finally show ?thesis .
    next
      case (Panic c)
      then have "\<forall>h1. parseStruct_field H h (field_at st r i) (decoded ! i) \<noteq> Ok h1" by simp
      note stop = fields_bound_stop [OF this]
      from Panic have "parseStruct_fields H h decoded st r i = Err e \<longleftrightarrow> False"
        by (simp add: step)
      also have "\<dots> \<longleftrightarrow> ?R h i"
        unfolding split using Panic by (simp del: fields_bound.simps add: stop)
      finally show ?thesis .
    qed
  qed
qed

lemma parseStruct_fields_Err_prefix:
  assumes "parseStruct_fields H h decoded st r i = Err e"
  shows "\<exists>j. i \<le> j \<and> j < NumField st \<and> j < length decoded
           \<and> (\<forall>ds. parseStruct_fields H h (take (Suc j) decoded @ ds) st r i = Err e)"
proof -
  from assms obtain j h' where j: "i \<le> j" "j < NumField st" "j < length decoded"
    and b: "fields_bound H h decoded st r i (j - i) = Some h'"
    and f: "parseStruct_field H h' (field_at st r j) (decoded ! j) = Err e"
    unfolding parseStruct_fields_Err_iff by blast
  have "parseStruct_fields H h (take (Suc j) decoded @ ds) st r i = Err e" for ds
  proof -
    let ?ds = "take (Suc j) decoded @ ds"
    from j have nth: "?ds ! k = decoded ! k" if "k \<le> j" for k
      using that by (simp add: nth_append)
    from j(1) have "\<forall>k. i \<le> k \<and> k < i + (j - i) \<longrightarrow> ?ds ! k = decoded ! k"
      by (simp add: nth)
    from fields_bound_prefix [OF this] b
    have "fields_bound H h ?ds st r i (j - i) = Some h'" by simp
    moreover from f have "parseStruct_field H h' (field_at st r j) (?ds ! j) = Err e"
      by (simp add: nth)
    moreover from j have "j < length ?ds" by simp
    ultimately show ?thesis
      unfolding parseStruct_fields_Err_iff [of H h ?ds] using j by blast
  qed
  with j show ?thesis by blast
qed

lemma field_error_tied:
  assumes err: "parseStruct_field H g (Loc ft fr ro) d = Err e"
  shows "if kind_of ft = KPtr \<and> type_string (elem_of ft) \<noteq> ''big.Int''
              \<and> type_string (elem_of ft) \<noteq> ''common.Address''
         then \<exists>n e'. e = Wrapped In_parseStruct PointerField n e'
                \<and> (if kind_of (elem_of ft) = KStruct
                    then \<exists>g1 xs p. set_if_nil g ft fr ro = Ok g1 \<and> asList d = Some xs
                           \<and> Value_Interface g1 (Loc ft fr ro) = Ok p
                           \<and> parseStruct H g1 xs p = Err e'
                    else parsePointer H g [d] (Loc ft fr ro) = Err e')
         else if kind_of ft = KStruct
         then \<exists>n e' xs. e = Wrapped In_parseStruct StructField n e' \<and> asList d = Some xs
                \<and> parseStruct H g xs (VPtr (TPtr ft) (Some fr)) = Err e'
         else if kind_of ft = KSlice \<or> kind_of ft = KArray
         then \<exists>n e' xs. e = Wrapped In_parseStruct SliceField n e' \<and> asList d = Some xs
                \<and> parseSlice H g xs (VPtr (TPtr ft) (Some fr)) = Err e'
         else if kind_of ft = KPtr
         then type_string (elem_of ft) = ''big.Int'' \<and> \<not> isBigInt d
                \<and> e = ExpectedBigInt (typeof d)
         else \<exists>vt. typeof d = Some vt \<and> vt \<noteq> ft \<and> convertOp ft vt = None
                \<and> e = CannotConvert vt ft"
proof -
  consider (ptr_struct) "kind_of ft = KPtr" "type_string (elem_of ft) \<noteq> ''big.Int''"
      "type_string (elem_of ft) \<noteq> ''common.Address''" "kind_of (elem_of ft) = KStruct"
    | (ptr_other) "kind_of ft = KPtr" "type_string (elem_of ft) \<noteq> ''big.Int''"
      "type_string (elem_of ft) \<noteq> ''common.Address''" "kind_of (elem_of ft) \<noteq> KStruct"
    | (struct) "kind_of ft = KStruct"
    | (slice) "kind_of ft = KSlice \<or> kind_of ft = KArray"
    | (bigint) "kind_of ft = KPtr" "type_string (elem_of ft) = ''big.Int''"
    | (address_ptr) "kind_of ft = KPtr" "type_string (elem_of ft) = ''common.Address''"
    | (address) "kind_of ft \<noteq> KPtr" "kind_of ft \<noteq> KStruct" "kind_of ft \<noteq> KSlice"
      "kind_of ft \<noteq> KArray" "TrimPrefix_star (type_string ft) = ''common.Address''"
    | (scalar) "kind_of ft \<noteq> KPtr" "kind_of ft \<noteq> KStruct" "kind_of ft \<noteq> KSlice"
      "kind_of ft \<noteq> KArray" "TrimPrefix_star (type_string ft) \<noteq> ''common.Address''"
    by blast
  then show ?thesis
  proof cases
    case ptr_struct
    have eq: "parseStruct_field H g (Loc ft fr ro) d =
        wrap In_parseStruct PointerField (type_name ft)
          (case set_if_nil g ft fr ro of
             Ok h1 \<Rightarrow>
               (case asList d of
                  None \<Rightarrow> Panic TypeAssertion
                | Some xs \<Rightarrow>
                    (case Value_Interface h1 (Loc ft fr ro) of
                       Ok p \<Rightarrow> parseStruct H h1 xs p
                     | Err e \<Rightarrow> Err e
                     | Panic c \<Rightarrow> Panic c))
           | Err e \<Rightarrow> Err e
           | Panic c \<Rightarrow> Panic c)"
      unfolding field_ptr_struct [OF ptr_struct] set_if_nil_def by (rule refl)
    from err obtain e' where e: "e = Wrapped In_parseStruct PointerField (type_name ft) e'"
      and "\<exists>g1 xs p. set_if_nil g ft fr ro = Ok g1 \<and> asList d = Some xs
             \<and> Value_Interface g1 (Loc ft fr ro) = Ok p \<and> parseStruct H g1 xs p = Err e'"
      unfolding eq wrap_Err_iff
      by (auto split: result.splits option.splits
          simp: Value_Interface_not_Err set_if_nil_not_Err simp del: Value_Interface.simps)
    with ptr_struct show ?thesis by auto
  next
    case ptr_other
    from err obtain e' where "e = Wrapped In_parseStruct PointerField (type_name ft) e'"
      and "parsePointer H g [d] (Loc ft fr ro) = Err e'"
      unfolding field_ptr_other [OF ptr_other] wrap_Err_iff by blast
    with ptr_other show ?thesis by auto
  next
    case struct
    from err obtain e' xs where "e = Wrapped In_parseStruct StructField (type_name ft) e'"
      and "asList d = Some xs" and "parseStruct H g xs (VPtr (TPtr ft) (Some fr)) = Err e'"
      unfolding field_struct [OF struct]
      by (auto split: option.splits result.splits if_splits simp: wrap_Err_iff)
    with struct show ?thesis by auto
  next
    case slice
    from err obtain e' xs where "e = Wrapped In_parseStruct SliceField (type_name ft) e'"
      and "asList d = Some xs" and "parseSlice H g xs (VPtr (TPtr ft) (Some fr)) = Err e'"
      unfolding field_slice [OF slice]
      by (auto split: option.splits result.splits if_splits
          simp: wrap_Err_iff Value_Set_not_Err simp del: Value_Set.simps)
    with slice show ?thesis by auto
  next
    case bigint
    from err have "\<not> isBigInt d \<and> e = ExpectedBigInt (typeof d)"
      unfolding field_bigint [OF bigint]
      by (auto split: if_splits simp: Value_Set_not_Err simp del: Value_Set.simps)
    with bigint show ?thesis by auto
  next
    case address_ptr
    from err have False
      unfolding field_address_ptr [OF address_ptr]
      by (auto split: option.splits prod.splits simp: Value_Set_not_Err simp del: Value_Set.simps)
    then show ?thesis ..
  next
    case address
    from err have False
      unfolding field_address [OF address]
      by (auto split: option.splits simp: Value_Set_not_Err simp del: Value_Set.simps)
    then show ?thesis ..
  next
    case scalar
    from err have "\<exists>vt. typeof d = Some vt \<and> vt \<noteq> ft \<and> convertOp ft vt = None
                \<and> e = CannotConvert vt ft"
      unfolding field_scalar [OF scalar]
      by (auto split: option.splits if_splits simp: Value_Set_not_Err simp del: Value_Set.simps)
    with scalar show ?thesis by auto
  qed
qed

lemma parseStruct_fields_take:
  "NumField st \<le> length decoded \<Longrightarrow>
   parseStruct_fields H h (take (NumField st) decoded) st r i = parseStruct_fields H h decoded st r i"
proof (induction "NumField st - i" arbitrary: i h)
  case 0
  then show ?case by (simp add: parseStruct_fields.simps)
next
  case (Suc n)
  from Suc.hyps(2) have i: "i < NumField st" and n: "n = NumField st - Suc i" by simp_all
  note ih = Suc.hyps(1) [OF n Suc.prems]
  from i Suc.prems show ?case
    by (subst parseStruct_fields.simps, subst (2) parseStruct_fields.simps)
      (simp add: ih split: result.splits)
qed

lemma parseStruct_fields_short:
  "i \<le> length decoded \<Longrightarrow> length decoded < NumField st \<Longrightarrow>
   parseStruct_fields H h decoded st r i \<noteq> Ok h'"
proof (induction "length decoded - i" arbitrary: i h)
  case 0
  then show ?case by (subst parseStruct_fields.simps) simp
next
  case (Suc n)
  from Suc.hyps(2) have i: "i < length decoded" and n: "n = length decoded - Suc i" by simp_all
  from i have "Suc i \<le> length decoded" by simp
  note ih = Suc.hyps(1) [OF n this Suc.prems(2)]
  from i Suc.prems show ?case
    by (subst parseStruct_fields.simps) (simp add: ih split: result.splits)
qed

lemma scalar_append:
  assumes sc: "is_scalar ft" and ty: "typeof d = Some ft" and ld: "load h r = Some (VSlice t xs)"
  shows "\<exists>h'. parseSlice H h [d] (VPtr (TPtr (TSlice ft)) (Some r)) = Ok h'
           \<and> load h' r = Some (VSlice t (xs @ [d]))"
proof -
  from store_total [OF ld] obtain h' where st: "store h r (VSlice t (xs @ [d])) = Some h'"
    by blast
  from scalar_kinds [OF sc] ld st assignTo_same [OF ty]
  have "parseSlice H h [d] (VPtr (TPtr (TSlice ft)) (Some r)) = Ok h'"
    by (simp add: parseSlice.simps parseSlice_loop.simps parseSlice_elem.simps Append_Set_def)
  with load_store [OF st] show ?thesis by simp
qed

section \<open>What a bind into a fresh target leaves alone\<close>

text \<open>
  A bind into a target that holds the zero value of its type writes only to the target's
  place and to cells it allocates; a bind into a slice writes only to the slice's place
  and to cells it allocates, and extends the slice. This is proved for the seven
  functions together, along their recursion.
\<close>

lemma binders_frame:
  shows "\<forall>pt a p h'. structVal = VPtr pt (Some (a, p)) \<longrightarrow> load h (a, p) = Some (zero (elem_of pt))
           \<longrightarrow> parseStruct H h decoded structVal = Ok h' \<longrightarrow> frame h (a, p) h'"
    and "\<forall>T fs h'. load h r = Some (VStruct T fs) \<longrightarrow> length fs = NumField st
           \<longrightarrow> (\<forall>j. i \<le> j \<and> j < NumField st \<longrightarrow> fs ! j = zero (snd (fields_of st ! j)))
           \<longrightarrow> parseStruct_fields H h decoded st r i = Ok h' \<longrightarrow> frame h r h'"
    and "\<forall>ft fr ro h'. f = Loc ft fr ro \<longrightarrow> load h fr = Some (zero ft)
           \<longrightarrow> parseStruct_field H h f d = Ok h' \<longrightarrow> frame h fr h'"
    and "\<forall>pt r t xs h'. sliceVal = VPtr pt (Some r) \<longrightarrow> load h r = Some (VSlice t xs)
           \<longrightarrow> parseSlice H h decoded sliceVal = Ok h'
           \<longrightarrow> frame h r h' \<and> (\<exists>ys. load h' r = Some (VSlice t (xs @ ys))
                 \<and> appended (elem_of (elem_of pt)) decoded ys)"
    and "\<forall>t xs h'. load h r = Some (VSlice t xs) \<longrightarrow> parseSlice_loop H h decoded st r = Ok h'
           \<longrightarrow> frame h r h' \<and> (\<exists>ys. load h' r = Some (VSlice t (xs @ ys))
                 \<and> appended (elem_of st) decoded ys)"
    and "\<forall>t xs h'. load h r = Some (VSlice t xs) \<longrightarrow> parseSlice_elem H h d st r = Ok h'
           \<longrightarrow> frame h r h' \<and> (\<exists>ys. load h' r = Some (VSlice t (xs @ ys))
                 \<and> appended (elem_of st) [d] ys)"
    and "\<forall>h'. parsePointer H h decoded pointerVal = Ok h' \<longrightarrow>
           (\<forall>pt fr ro. pointerVal = Loc pt fr ro \<longrightarrow> load h fr = Some (zero pt) \<longrightarrow> frame h fr h')
           \<and> (\<forall>T b. pointerVal = Imm (VPtr T (Some (b, []))) \<longrightarrow> load h (b, []) = Some (zero (elem_of T))
                \<longrightarrow> frame h (b, []) h')"
proof (induction H h decoded structVal and H h decoded st r i and H h f d
    and H h decoded sliceVal and H h decoded st r and H h d st r and H h decoded pointerVal
    rule: parseStruct_parseStruct_fields_parseStruct_field_parseSlice_parseSlice_loop_parseSlice_elem_parsePointer.induct)
  case (1 H h decoded structVal)
  show ?case
  proof (intro allI impI)
    fix pt a p h'
    assume sv: "structVal = VPtr pt (Some (a, p))"
      and z: "load h (a, p) = Some (zero (elem_of pt))"
      and ok: "parseStruct H h decoded structVal = Ok h'"
    from ok have k: "kind_of (elem_of pt) = KStruct"
      and g: "\<not> (length decoded \<noteq> NumField (elem_of pt)
              \<and> type_string (elem_of pt) \<noteq> ''big.Int''
              \<and> type_string (elem_of pt) \<noteq> ''common.Address'')"
      and l: "parseStruct_fields H h decoded (elem_of pt) (a, p) 0 = Ok h'"
      unfolding sv parseStruct.simps by (auto split: if_splits)
    from k have k': "\<not> kind_of (elem_of pt) \<noteq> KStruct" by simp
    note ih = "1.IH" [OF sv refl k' g, rule_format]
    let ?fs = "map (\<lambda>f. zero (snd f)) (fields_of (elem_of pt))"
    have z': "load h (a, p) = Some (VStruct (elem_of pt) ?fs)"
      using z by (simp add: zero_struct [OF k])
    have n: "length ?fs = NumField (elem_of pt)"
      by (simp add: NumField_def)
    have zs: "\<forall>j. 0 \<le> j \<and> j < NumField (elem_of pt) \<longrightarrow> ?fs ! j = zero (snd (fields_of (elem_of pt) ! j))"
      by (simp add: NumField_def)
    show "frame h (a, p) h'"
      by (rule ih [OF z' n zs [rule_format] l])
  qed
next
  case (2 H h decoded st r i)
  show ?case
  proof (intro allI impI)
    fix T fs h'
    assume ld: "load h r = Some (VStruct T fs)" and len: "length fs = NumField st"
      and z: "\<forall>j. i \<le> j \<and> j < NumField st \<longrightarrow> fs ! j = zero (snd (fields_of st ! j))"
      and ok: "parseStruct_fields H h decoded st r i = Ok h'"
    show "frame h r h'"
    proof (cases "i < NumField st")
      case False
      with ok have "h' = h" by (subst (asm) parseStruct_fields.simps) simp
      with ld show ?thesis by (simp add: frame_refl)
    next
      case True
      let ?f = "Loc (snd (fields_of st ! i)) (fst r, snd r @ [i]) (\<not> exported (fst (fields_of st ! i)))"
      from ok True have il: "i < length decoded"
        by (subst (asm) parseStruct_fields.simps) (simp split: if_splits)
      from ok True il obtain h1 where f: "parseStruct_field H h ?f (decoded ! i) = Ok h1"
        and l: "parseStruct_fields H h1 decoded st r (Suc i) = Ok h'"
        by (subst (asm) parseStruct_fields.simps) (auto split: result.splits)
      have ldr: "load h (fst r, snd r) = Some (VStruct T fs)" using ld by simp
      from load_field [OF ldr, of i] True len z
      have lf: "load h (fst r, snd r @ [i]) = Some (zero (snd (fields_of st ! i)))" by simp
      from "2.IH"(1) [OF True il, rule_format, OF refl lf f]
      have f1: "frame h (fst r, snd r @ [i]) h1" .
      from load_frame_sibling [OF f1 ldr] obtain y
        where ld1: "load h1 r = Some (VStruct T (fs[i := y]))" by auto
      have "frame h1 r h'"
        by (rule "2.IH"(2) [OF True il f, rule_format, OF ld1 _ _ l]) (use len z in auto)
      moreover from frame_sub [OF f1] have "frame h r h1" by simp
      ultimately show ?thesis by (rule frame_trans [rotated])
    qed
  qed
next
  case (3 H h v d)
  show ?case by simp
next
  case (4 H h ft fr ro d)
  show ?case
  proof (intro allI impI)
    fix ft' fr' ro' h'
    assume eq: "Loc ft fr ro = Loc ft' fr' ro'"
      and z': "load h fr' = Some (zero ft')"
      and ok: "parseStruct_field H h (Loc ft fr ro) d = Ok h'"
    from eq z' have z: "load h fr = Some (zero ft)" by simp
    have "frame h fr h'"
    proof -
      consider (ptr_struct) "kind_of ft = KPtr" "type_string (elem_of ft) \<noteq> ''big.Int''"
          "type_string (elem_of ft) \<noteq> ''common.Address''" "kind_of (elem_of ft) = KStruct"
        | (ptr_other) "kind_of ft = KPtr" "type_string (elem_of ft) \<noteq> ''big.Int''"
          "type_string (elem_of ft) \<noteq> ''common.Address''" "kind_of (elem_of ft) \<noteq> KStruct"
        | (struct) "kind_of ft = KStruct"
        | (slice) "kind_of ft = KSlice \<or> kind_of ft = KArray"
        | (bigint) "kind_of ft = KPtr" "type_string (elem_of ft) = ''big.Int''"
        | (address_ptr) "kind_of ft = KPtr" "type_string (elem_of ft) = ''common.Address''"
        | (address) "kind_of ft \<noteq> KPtr" "kind_of ft \<noteq> KStruct" "kind_of ft \<noteq> KSlice"
          "kind_of ft \<noteq> KArray" "TrimPrefix_star (type_string ft) = ''common.Address''"
        | (scalar) "kind_of ft \<noteq> KPtr" "kind_of ft \<noteq> KStruct" "kind_of ft \<noteq> KSlice"
          "kind_of ft \<noteq> KArray" "TrimPrefix_star (type_string ft) \<noteq> ''common.Address''"
        by blast
      then show ?thesis
      proof cases
        case ptr_struct
        let ?A = "case load h fr of
                    Some (VPtr t None) \<Rightarrow>
                      (case reflect_New h (elem_of ft) of (h1, p) \<Rightarrow> Value_Set h1 (Loc ft fr ro) p)
                  | Some v \<Rightarrow> Ok h
                  | None \<Rightarrow> Panic NoSuchPlace"
        from ok obtain x1 xs pv where A: "?A = Ok x1" and xs: "asList d = Some xs"
          and vi: "Value_Interface x1 (Loc ft fr ro) = Ok pv"
          and ps: "parseStruct H x1 xs pv = Ok h'"
          unfolding field_ptr_struct [OF ptr_struct] wrap_Ok
          by (auto split: result.splits option.splits simp del: Value_Interface.simps)
        let ?p = "VPtr (TPtr (elem_of ft)) (Some (length h, []))"
        from A z have vs: "Value_Set (h @ [zero (elem_of ft)]) (Loc ft fr ro) ?p = Ok x1"
          by (simp add: zero_ptr [OF ptr_struct(1)] reflect_New_eq)
        from Value_Set_Ok [OF vs] obtain y where nro: "\<not> ro" and y: "assignTo ft ?p = Some y"
          and st: "store (h @ [zero (elem_of ft)]) fr y = Some x1" by blast
        from assignTo_ptr [OF ptr_struct(1) y] have y': "y = VPtr ft (Some (length h, []))" .
        from vi nro load_store [OF st] have pv: "pv = VPtr ft (Some (length h, []))"
          by (simp add: y')
        have c: "kind_of ft = KPtr \<and> type_string (elem_of ft) \<noteq> ''big.Int''
                 \<and> type_string (elem_of ft) \<noteq> ''common.Address''"
          using ptr_struct by simp
        from "4.IH"(1) [OF c ptr_struct(4) A xs vi, rule_format, OF pv new_cell_kept [OF z st] ps]
        have "frame x1 (length h, []) h'" .
        with z st show ?thesis by (rule frame_after_new)
      next
        case ptr_other
        have c: "kind_of ft = KPtr \<and> type_string (elem_of ft) \<noteq> ''big.Int''
                 \<and> type_string (elem_of ft) \<noteq> ''common.Address''"
          using ptr_other by simp
        from ok have "parsePointer H h [d] (Loc ft fr ro) = Ok h'"
          unfolding field_ptr_other [OF ptr_other] wrap_Ok .
        from "4.IH"(2) [OF c ptr_other(4), rule_format, OF this, THEN conjunct1, rule_format, OF refl z]
        show ?thesis .
      next
        case struct
        from ok obtain xs pv where xs: "asList d = Some xs"
          and vi: "Value_Addr_Interface (Loc ft fr ro) = Ok pv"
          and ps: "parseStruct H h xs pv = Ok h'"
          unfolding field_struct [OF struct]
          by (auto split: result.splits option.splits simp: wrap_Ok simp del: Value_Addr_Interface.simps)
        from vi have pv: "pv = VPtr (TPtr ft) (Some (fst fr, snd fr))"
          by (auto split: if_splits)
        have c: "\<not> (kind_of ft = KPtr \<and> type_string (elem_of ft) \<noteq> ''big.Int''
                 \<and> type_string (elem_of ft) \<noteq> ''common.Address'')"
          using struct by simp
        from "4.IH"(3) [OF c struct xs vi, rule_format, OF pv _ ps] z
        show ?thesis by simp
      next
        case slice
        from ok obtain vt where vt: "typeof d = Some vt"
          unfolding field_slice [OF slice] by (auto split: option.splits)
        show ?thesis
        proof (cases "type_string vt = ''[]uint8'' \<or> type_string vt = ''[]byte''
                      \<or> type_string vt = ''string''")
          case True
          with ok vt obtain x where "Value_Set h (Loc ft fr ro) x = Ok h'"
            unfolding field_slice [OF slice]
            by (auto split: option.splits if_splits simp del: Value_Set.simps)
          then show ?thesis by (rule Value_Set_frame)
        next
          case False
          with ok vt obtain xs pv where xs: "asList d = Some xs"
            and vi: "Value_Addr_Interface (Loc ft fr ro) = Ok pv"
            and ps: "parseSlice H h xs pv = Ok h'"
            unfolding field_slice [OF slice]
            by (auto split: result.splits option.splits simp: wrap_Ok
                simp del: Value_Addr_Interface.simps)
          from vi have pv: "pv = VPtr (TPtr ft) (Some fr)"
            by (auto split: if_splits)
          from ps have ks: "kind_of ft = KSlice"
            unfolding pv parseSlice.simps by (auto split: if_splits)
          have c: "\<not> (kind_of ft = KPtr \<and> type_string (elem_of ft) \<noteq> ''big.Int''
                   \<and> type_string (elem_of ft) \<noteq> ''common.Address'')"
            "kind_of ft \<noteq> KStruct"
            using ks by simp_all
          from False have n: "\<not> (type_string vt = ''[]uint8'' \<or> type_string vt = ''[]byte'')"
            "type_string vt \<noteq> ''string''" by simp_all
          from z have zs: "load h fr = Some (VSlice ft [])"
            by (simp add: zero_slice [OF ks])
          from "4.IH"(4) [OF c slice vt n xs vi, rule_format, OF pv zs ps]
          show ?thesis by simp
        qed
      next
        case bigint
        from ok obtain x where "Value_Set h (Loc ft fr ro) x = Ok h'"
          unfolding field_bigint [OF bigint]
          by (auto split: if_splits simp del: Value_Set.simps)
        then show ?thesis by (rule Value_Set_frame)
      next
        case address_ptr
        from ok obtain c x where "Value_Set (h @ [c]) (Loc ft fr ro) x = Ok h'"
          unfolding field_address_ptr [OF address_ptr]
          by (auto split: option.splits simp: alloc_def simp del: Value_Set.simps)
        then have "frame (h @ [c]) fr h'" by (rule Value_Set_frame)
        with frame_alloc [OF z] show ?thesis by (rule frame_trans)
      next
        case address
        from ok obtain x where "Value_Set h (Loc ft fr ro) x = Ok h'"
          unfolding field_address [OF address]
          by (auto split: option.splits simp del: Value_Set.simps)
        then show ?thesis by (rule Value_Set_frame)
      next
        case scalar
        from ok obtain x where "Value_Set h (Loc ft fr ro) x = Ok h'"
          unfolding field_scalar [OF scalar]
          by (auto split: option.splits if_splits simp del: Value_Set.simps)
        then show ?thesis by (rule Value_Set_frame)
      qed
    qed
    with eq show "frame h fr' h'" by simp
  qed
next
  case (5 H h decoded sliceVal)
  show ?case
  proof (intro allI impI)
    fix pt r t xs h'
    assume sv: "sliceVal = VPtr pt (Some r)" and ld: "load h r = Some (VSlice t xs)"
      and ok: "parseSlice H h decoded sliceVal = Ok h'"
    from ok have k: "\<not> kind_of (elem_of pt) \<noteq> KSlice"
      and l: "parseSlice_loop H h decoded (elem_of pt) r = Ok h'"
      unfolding sv parseSlice.simps by (auto split: if_splits)
    from "5.IH" [OF sv refl k, rule_format, OF ld l]
    show "frame h r h' \<and> (\<exists>ys. load h' r = Some (VSlice t (xs @ ys))
            \<and> appended (elem_of (elem_of pt)) decoded ys)" .
  qed
next
  case (6 H h st r)
  show ?case
    by (auto simp: parseSlice_loop.simps frame_refl appended_Nil)
next
  case (7 H h d rest st r)
  show ?case
  proof (intro allI impI)
    fix t xs h'
    assume ld: "load h r = Some (VSlice t xs)"
      and ok: "parseSlice_loop H h (d # rest) st r = Ok h'"
    from ok obtain h1 where e: "parseSlice_elem H h d st r = Ok h1"
      and l: "parseSlice_loop H h1 rest st r = Ok h'"
      by (subst (asm) parseSlice_loop.simps) (auto split: result.splits)
    from "7.IH"(1) [rule_format, OF ld e] obtain ys1 where f1: "frame h r h1"
      and ld1: "load h1 r = Some (VSlice t (xs @ ys1))" and a1: "appended (elem_of st) [d] ys1"
      by blast
    from "7.IH"(2) [OF e, rule_format, OF ld1 l] obtain ys2 where f2: "frame h1 r h'"
      and ld2: "load h' r = Some (VSlice t ((xs @ ys1) @ ys2))"
      and a2: "appended (elem_of st) rest ys2"
      by blast
    from f1 f2 have "frame h r h'" by (rule frame_trans)
    moreover from ld2 have "load h' r = Some (VSlice t (xs @ (ys1 @ ys2)))" by simp
    moreover from a1 a2 have "appended (elem_of st) (d # rest) (ys1 @ ys2)" by (rule appended_Cons)
    ultimately show "frame h r h' \<and> (\<exists>ys. load h' r = Some (VSlice t (xs @ ys))
            \<and> appended (elem_of st) (d # rest) ys)" by blast
  qed
next
  case (8 H h d st r)
  show ?case
  proof (intro allI impI)
    fix t xs h'
    assume ld: "load h r = Some (VSlice t xs)"
      and ok: "parseSlice_elem H h d st r = Ok h'"
    let ?e = "elem_of st"
    from load_valid [OF ld] have rv: "fst r < length h" .
    have fresh_then_append: "frame h r h' \<and> (\<exists>ys. load h' r = Some (VSlice t (xs @ ys)) \<and> length ys = 1)"
      if f: "frame (h @ [c]) (length h, []) h2" and ap: "Append_Set h2 st r x = Ok h'" for c h2 x
    proof -
      from load_frame_other [OF f, of "fst r" "snd r"] rv
      have "load h2 r = load (h @ [c]) r" by simp
      with load_append [OF ld] have ld2: "load h2 r = Some (VSlice t xs)" by simp
      from Append_Set_Ok [OF ld2 ap] obtain y
        where st: "store h2 r (VSlice t (xs @ [y])) = Some h'" by blast
      from frame_alloc [OF ld] f have "frame h r h2" by (rule frame_fresh) simp
      with frame_store [OF st] have "frame h r h'" by (rule frame_trans [rotated])
      with load_store [OF st] show ?thesis by auto
    qed
    consider (ptr) "kind_of ?e = KPtr \<and> type_string (elem_of ?e) \<noteq> ''big.Int''
          \<and> type_string (elem_of ?e) \<noteq> ''common.Address''"
      | (struct) "\<not> (kind_of ?e = KPtr \<and> type_string (elem_of ?e) \<noteq> ''big.Int''
          \<and> type_string (elem_of ?e) \<noteq> ''common.Address'')" "kind_of ?e = KStruct"
      | (nested) "\<not> (kind_of ?e = KPtr \<and> type_string (elem_of ?e) \<noteq> ''big.Int''
          \<and> type_string (elem_of ?e) \<noteq> ''common.Address'')" "kind_of ?e \<noteq> KStruct"
          "kind_of ?e = KSlice \<or> kind_of ?e = KArray"
      | (raw) "appends_raw ?e"
      unfolding appends_raw_def by blast
    then show "frame h r h' \<and> (\<exists>ys. load h' r = Some (VSlice t (xs @ ys))
            \<and> appended (elem_of st) [d] ys)"
    proof cases
      case ptr
      let ?h1 = "h @ [zero (elem_of ?e)]"
      let ?p = "VPtr (TPtr (elem_of ?e)) (Some (length h, []))"
      from ok ptr obtain xs' h2 where xs': "asList d = Some xs'"
        and pp: "parsePointer H ?h1 xs' (Imm ?p) = Ok h2"
        and ap: "Append_Set h2 st r ?p = Ok h'"
        by (subst (asm) parseSlice_elem.simps)
          (auto simp: reflect_New_eq wrap_Ok split: option.splits result.splits)
      from "8.IH"(1) [OF ptr reflect_New_eq [symmetric] xs', rule_format, OF pp, THEN conjunct2,
          rule_format, OF refl]
      have "frame ?h1 (length h, []) h2" by (simp add: load_new_cell)
      from fresh_then_append [OF this ap] ptr show ?thesis
        by (auto simp: appended_def appends_raw_def)
    next
      case struct
      let ?h1 = "h @ [zero ?e]"
      let ?p = "VPtr (TPtr ?e) (Some (length h, []))"
      from ok struct obtain xs' h2 v where xs': "asList d = Some xs'"
        and ps: "parseStruct H ?h1 xs' ?p = Ok h2"
        and ap: "Append_Set h2 st r v = Ok h'"
        by (subst (asm) parseSlice_elem.simps)
          (auto simp: reflect_New_eq wrap_Ok split: option.splits result.splits)
      from "8.IH"(2) [OF struct reflect_New_eq [symmetric] xs', rule_format, OF refl _ ps]
      have "frame ?h1 (length h, []) h2" by (simp add: load_new_cell)
      from fresh_then_append [OF this ap] struct show ?thesis
        by (auto simp: appended_def appends_raw_def)
    next
      case nested
      from ok nested obtain xs' where xs': "asList d = Some xs'"
        and ps: "parseSlice H h xs' (VPtr (TPtr st) (Some r)) = Ok h'"
        by (subst (asm) parseSlice_elem.simps) (auto simp: wrap_Ok split: option.splits)
      from "8.IH"(3) [OF nested xs', rule_format, OF refl ld ps] nested show ?thesis
        by (auto simp: appended_def appends_raw_def)
    next
      case raw
      from ok raw have ap: "Append_Set h st r d = Ok h'"
        by (subst (asm) parseSlice_elem.simps) (auto simp: appends_raw_def)
      from Append_Set_Ok [OF ld ap] obtain y where y: "assignTo ?e d = Some y"
        and st: "store h r (VSlice t (xs @ [y])) = Some h'" by blast
      from frame_store [OF st] load_store [OF st] y show ?thesis
        by (auto simp: appended_def)
    qed
  qed
next
  case (9 H h decoded pointerVal)
  show ?case
  proof (intro allI impI conjI)
    fix h' pt fr ro
    assume ok: "parsePointer H h decoded pointerVal = Ok h'"
      and pv: "pointerVal = Loc pt fr ro" and z: "load h fr = Some (zero pt)"
    let ?e = "elem_of pt"
    let ?A = "case Value_read h pointerVal of
                Some (VPtr t None) \<Rightarrow>
                  (case reflect_New h ?e of (h1, p) \<Rightarrow> Value_Set h1 pointerVal p)
              | Some v \<Rightarrow> Ok h
              | None \<Rightarrow> Panic NoSuchPlace"
    from ok have vt: "Value_Type pointerVal = Some pt" by (simp add: pv)
    from ok have k: "kind_of pt = KPtr"
      by (subst (asm) parsePointer.simps) (auto simp: pv split: if_splits)
    then have k': "\<not> kind_of pt \<noteq> KPtr" by simp
    from ok k obtain x1 where A: "?A = Ok x1"
      by (subst (asm) parsePointer.simps) (auto simp: pv split: result.splits)
    let ?p = "VPtr (TPtr ?e) (Some (length h, []))"
    from A z have vs: "Value_Set (h @ [zero ?e]) (Loc pt fr ro) ?p = Ok x1"
      by (simp add: pv zero_ptr [OF k] reflect_New_eq)
    from Value_Set_Ok [OF vs] obtain y where nro: "\<not> ro" and y: "assignTo pt ?p = Some y"
      and st: "store (h @ [zero ?e]) fr y = Some x1" by blast
    from assignTo_ptr [OF k y] have y': "y = VPtr pt (Some (length h, []))" .
    note ldy = load_store [OF st, unfolded y']
    have "frame x1 (length h, []) h'"
    proof (cases "kind_of ?e = KStruct")
      case True
      from nro ldy have vi: "Value_Interface x1 pointerVal = Ok (VPtr pt (Some (length h, [])))"
        by (simp add: pv)
      from ok k A True vi have ps: "parseStruct H x1 decoded (VPtr pt (Some (length h, []))) = Ok h'"
        by (subst (asm) parsePointer.simps)
          (simp add: vt wrap_Ok del: Value_Interface.simps Value_read.simps)
      from "9.IH"(1) [OF vt k' A True vi, rule_format, OF refl new_cell_kept [OF z st] ps]
      show ?thesis .
    next
      case False
      show ?thesis
      proof (cases "kind_of ?e = KSlice \<or> kind_of ?e = KArray")
        case True
        from ok k A False True nro have "parseSlice H x1 decoded (VPtr (TPtr pt) (Some fr)) = Ok h'"
          by (subst (asm) parsePointer.simps)
            (simp add: vt pv wrap_Ok del: Value_read.simps)
        then show ?thesis
          using k by (simp add: parseSlice.simps)
      next
        case nsl: False
        from ldy have ve: "Value_Elem x1 pointerVal = Some (Loc ?e (length h, []) ro)"
          by (simp add: pv)
        from ok k A False nsl ve obtain x where "Value_Set x1 (Loc ?e (length h, []) ro) x = Ok h'"
          by (subst (asm) parsePointer.simps)
            (simp add: vt del: Value_read.simps Value_Elem.simps Value_Set.simps)
        then show ?thesis by (rule Value_Set_frame)
      qed
    qed
    with z st show "frame h fr h'" by (rule frame_after_new)
  next
    fix h' T b
    assume ok: "parsePointer H h decoded pointerVal = Ok h'"
      and pv: "pointerVal = Imm (VPtr T (Some (b, [])))"
      and z: "load h (b, []) = Some (zero (elem_of T))"
    let ?e = "elem_of T"
    let ?A = "case Value_read h pointerVal of
                Some (VPtr t None) \<Rightarrow>
                  (case reflect_New h ?e of (h1, p) \<Rightarrow> Value_Set h1 pointerVal p)
              | Some v \<Rightarrow> Ok h
              | None \<Rightarrow> Panic NoSuchPlace"
    have vt: "Value_Type pointerVal = Some T" by (simp add: pv)
    from ok have k: "kind_of T = KPtr"
      by (subst (asm) parsePointer.simps) (auto simp: pv split: if_splits)
    then have k': "\<not> kind_of T \<noteq> KPtr" by simp
    have A: "?A = Ok h" by (simp add: pv)
    show "frame h (b, []) h'"
    proof (cases "kind_of ?e = KStruct")
      case True
      have vi: "Value_Interface h pointerVal = Ok (VPtr T (Some (b, [])))"
        by (simp add: pv)
      from ok k True have ps: "parseStruct H h decoded (VPtr T (Some (b, []))) = Ok h'"
        by (subst (asm) parsePointer.simps) (simp add: pv wrap_Ok)
      from "9.IH"(1) [OF vt k' A True vi, rule_format, OF refl z ps]
      show ?thesis .
    next
      case False
      show ?thesis
      proof (cases "kind_of ?e = KSlice \<or> kind_of ?e = KArray")
        case True
        with ok k False show ?thesis
          by (subst (asm) parsePointer.simps) (simp add: pv)
      next
        case nsl: False
        from ok k False nsl obtain x where "Value_Set h (Loc ?e (b, []) False) x = Ok h'"
          by (subst (asm) parsePointer.simps) (simp add: pv del: Value_Set.simps)
        then show ?thesis by (rule Value_Set_frame)
      qed
    qed
  qed
qed

section \<open>The count check of parseStruct\<close>

text \<open>
  C1 (corrected). Given a pointer to a struct, \<^verbatim>\<open>parseStruct\<close> returns the count error
  when the number of decoded nodes differs from the number of fields and the struct type
  prints neither as \<^verbatim>\<open>big.Int\<close> nor as \<^verbatim>\<open>common.Address\<close>. For a struct type that
  prints as one of the two the check is skipped whatever the number of nodes: the result
  is that of the loop over the fields and is never the count error; the nodes beyond the
  number of fields are ignored, and with fewer nodes than fields the call does not return
  nil. A pointer to anything but a struct is rejected before the count check, whatever
  the number of nodes; the type \<^verbatim>\<open>common.Address\<close> of go-ethereum, an array of
  twenty bytes, is such a target.
\<close>

theorem parseStruct_count_check:
  "(kind_of (elem_of pt) \<noteq> KStruct
      \<longrightarrow> parseStruct H h decoded (VPtr pt (Some r)) = Err NotStructPointer) \<and>
   (kind_of (elem_of pt) = KStruct \<and> length decoded \<noteq> NumField (elem_of pt)
      \<and> type_string (elem_of pt) \<noteq> ''big.Int'' \<and> type_string (elem_of pt) \<noteq> ''common.Address''
      \<longrightarrow> parseStruct H h decoded (VPtr pt (Some r)) = Err CountMismatch) \<and>
   (kind_of (elem_of pt) = KStruct
      \<and> (type_string (elem_of pt) = ''big.Int'' \<or> type_string (elem_of pt) = ''common.Address'')
      \<longrightarrow> parseStruct H h decoded (VPtr pt (Some r))
            = parseStruct_fields H h decoded (elem_of pt) r 0
          \<and> parseStruct H h decoded (VPtr pt (Some r)) \<noteq> Err CountMismatch
          \<and> (NumField (elem_of pt) \<le> length decoded
              \<longrightarrow> parseStruct H h decoded (VPtr pt (Some r))
                    = parseStruct H h (take (NumField (elem_of pt)) decoded) (VPtr pt (Some r)))
          \<and> (length decoded < NumField (elem_of pt)
              \<longrightarrow> (\<forall>h'. parseStruct H h decoded (VPtr pt (Some r)) \<noteq> Ok h')))"
proof (intro conjI impI allI)
  assume "kind_of (elem_of pt) \<noteq> KStruct"
  then show "parseStruct H h decoded (VPtr pt (Some r)) = Err NotStructPointer"
    by (simp add: parseStruct.simps)
next
  assume "kind_of (elem_of pt) = KStruct \<and> length decoded \<noteq> NumField (elem_of pt)
      \<and> type_string (elem_of pt) \<noteq> ''big.Int'' \<and> type_string (elem_of pt) \<noteq> ''common.Address''"
  then show "parseStruct H h decoded (VPtr pt (Some r)) = Err CountMismatch"
    by (simp add: parseStruct.simps)
next
  assume a: "kind_of (elem_of pt) = KStruct
      \<and> (type_string (elem_of pt) = ''big.Int'' \<or> type_string (elem_of pt) = ''common.Address'')"
  then have eq: "parseStruct H h ds (VPtr pt (Some r)) = parseStruct_fields H h ds (elem_of pt) r 0"
    for ds
    by (auto simp: parseStruct.simps)
  show "parseStruct H h decoded (VPtr pt (Some r)) = parseStruct_fields H h decoded (elem_of pt) r 0"
    by (rule eq)
  show "parseStruct H h decoded (VPtr pt (Some r)) \<noteq> Err CountMismatch"
    unfolding eq by (rule parseStruct_fields_not_CountMismatch)
  {
    assume "NumField (elem_of pt) \<le> length decoded"
    then show "parseStruct H h decoded (VPtr pt (Some r))
                    = parseStruct H h (take (NumField (elem_of pt)) decoded) (VPtr pt (Some r))"
      unfolding eq by (simp add: parseStruct_fields_take)
  }
  {
    fix h'
    assume "length decoded < NumField (elem_of pt)"
    then show "parseStruct H h decoded (VPtr pt (Some r)) \<noteq> Ok h'"
      unfolding eq by (intro parseStruct_fields_short) simp_all
  }
qed

theorem parseStruct_count_check_witness:
  "kind_of (elem_of (TPtr common_Address)) \<noteq> KStruct
   \<and> parseStruct hex0 [zero common_Address] [VStr TString ''0x01'']
       (VPtr (TPtr common_Address) (Some (0, []))) = Err NotStructPointer
   \<and> kind_of (elem_of (TPtr Pair_t)) = KStruct
   \<and> length [VBool TBool True] \<noteq> NumField (elem_of (TPtr Pair_t))
   \<and> type_string (elem_of (TPtr Pair_t)) \<noteq> ''big.Int''
   \<and> type_string (elem_of (TPtr Pair_t)) \<noteq> ''common.Address''
   \<and> parseStruct hex0 [zero Pair_t] [VBool TBool True] (VPtr (TPtr Pair_t) (Some (0, [])))
       = Err CountMismatch
   \<and> kind_of (elem_of (TPtr Big1_t)) = KStruct \<and> type_string (elem_of (TPtr Big1_t)) = ''big.Int''
   \<and> NumField (elem_of (TPtr Big1_t)) \<le> length [VInt (TInt U64) 5, VInt (TInt U64) 6]
   \<and> length [VInt (TInt U64) 5, VInt (TInt U64) 6] \<noteq> NumField (elem_of (TPtr Big1_t))
   \<and> parseStruct hex0 [zero Big1_t] [VInt (TInt U64) 5, VInt (TInt U64) 6]
       (VPtr (TPtr Big1_t) (Some (0, [])))
       = parseStruct hex0 [zero Big1_t] [VInt (TInt U64) 5] (VPtr (TPtr Big1_t) (Some (0, [])))
   \<and> parseStruct hex0 [zero Big1_t] [VInt (TInt U64) 5, VInt (TInt U64) 6]
       (VPtr (TPtr Big1_t) (Some (0, [])))
       = Ok [VStruct Big1_t [VInt (TInt U64) 5]]
   \<and> kind_of (elem_of (TPtr Addr1_t)) = KStruct
   \<and> type_string (elem_of (TPtr Addr1_t)) = ''common.Address''
   \<and> parseStruct hex0 [zero Addr1_t] [VInt (TInt U64) 5, VInt (TInt U64) 6]
       (VPtr (TPtr Addr1_t) (Some (0, [])))
       = Ok [VStruct Addr1_t [VInt (TInt U64) 5]]
   \<and> length ([] :: val list) < NumField (elem_of (TPtr Big1_t))
   \<and> parseStruct hex0 [zero Big1_t] [] (VPtr (TPtr Big1_t) (Some (0, []))) = Panic IndexOutOfRange"
  using parseStruct_count_check [where pt = "TPtr common_Address"
      and decoded = "[VStr TString ''0x01'']" and H = hex0 and h = "[zero common_Address]"
      and r = "(0, [])"]
    parseStruct_count_check [where pt = "TPtr Pair_t" and decoded = "[VBool TBool True]"
      and H = hex0 and h = "[zero Pair_t]" and r = "(0, [])"]
    parseStruct_count_check [where pt = "TPtr Big1_t"
      and decoded = "[VInt (TInt U64) 5, VInt (TInt U64) 6]"
      and H = hex0 and h = "[zero Big1_t]" and r = "(0, [])"]
    parseStruct_count_check [where pt = "TPtr Addr1_t"
      and decoded = "[VInt (TInt U64) 5, VInt (TInt U64) 6]"
      and H = hex0 and h = "[zero Addr1_t]" and r = "(0, [])"]
    parseStruct_count_check [where pt = "TPtr Big1_t" and decoded = "[]"
      and H = hex0 and h = "[zero Big1_t]" and r = "(0, [])"]
  by (simp add: binder_simps reflect_defs Pair_t_def Big1_t_def Addr1_t_def common_Address_def)

theorem binary_identifier_counterexample:
  "parseStruct hex0 [zero common_Address] [VStr TString ''0x01'']
     (VPtr (TPtr common_Address) (Some (0, []))) = Err NotStructPointer
   \<and> parseStruct hex0 [zero common_Address] (replicate 20 (VInt (TInt U8) 0))
     (VPtr (TPtr common_Address) (Some (0, []))) = Err NotStructPointer"
  by (simp add: parseStruct.simps common_Address_def)

section \<open>The end-to-end example\<close>

text \<open>
  C2. Binding the nodes \<open>[s, 42, [1, 2, 3]]\<close>, where \<open>s\<close> is a string, into a fresh
  target with the fields \<open>Id\<close> of type \<^verbatim>\<open>common.Address\<close>, \<open>Count\<close> of an integer type
  and \<open>Values\<close> of a slice type succeeds; afterwards \<open>Id\<close> is the address
  \<^verbatim>\<open>HexToAddress\<close> gives for \<open>s\<close>, \<open>Count\<close> is 42 and \<open>Values\<close> is \<open>[1, 2, 3]\<close>. The
  number 42 may be of any integer type; the three elements are of the slice's element
  type. Nothing else in the heap changes.
\<close>

theorem Parse_end_to_end_example:
  "Parse H (h @ [zero (Record_t k e)])
     [VStr TString s, VInt (TInt k') 42,
      VSlice (TSlice TAny) [VInt (TInt e) 1, VInt (TInt e) 2, VInt (TInt e) 3]]
     (VPtr (TPtr (Record_t k e)) (Some (length h, [])))
   = Ok (h @ [VStruct (Record_t k e)
                [Address_val (H s), VInt (TInt k) 42,
                 VSlice (TSlice (TInt e)) [VInt (TInt e) 1, VInt (TInt e) 2, VInt (TInt e) 3]]])"
  using int_not_Address [of k]
  by (simp add: Parse_def parseStruct.simps parseStruct_fields.simps parseStruct_field.simps
      parseSlice.simps parseSlice_loop.simps parseSlice_elem.simps
      Record_t_def zero_def common_Address_def NumField_def load_append_last store_append_last
      exported_def asString_def asList_def TrimPrefix_star_def
      directlyAssignable_def assignTo_def Address_val_def Append_Set_def wrap_def convertOp_def
      wrap_int_42)

section \<open>Conversion in the binders\<close>

text \<open>
  C3 (corrected). Take a scalar type, and a decoded node of another type that Go can
  convert to it. Bound to an exported struct field of the scalar type, the node is
  converted and the converted value stored. Bound as the element of a slice of the scalar
  type it is not converted: the node is handed as it is to the append, which takes a
  node of the scalar type and appends it unchanged, but not this one, which is not
  assignable to the scalar type, and the bind panics.
\<close>

theorem conversion_asymmetry:
  "is_scalar ft \<Longrightarrow> typeof d = Some vt \<Longrightarrow> vt \<noteq> ft \<Longrightarrow> convertOp ft vt = Some c \<Longrightarrow>
   TrimPrefix_star (type_string ft) \<noteq> ''common.Address'' \<Longrightarrow>
   (load h fr = Some old \<longrightarrow>
      (\<exists>h'. parseStruct_field H h (Loc ft fr False) d = Ok h'
            \<and> load h' fr = Some (apply_cvt c ft d))) \<and>
   (load h r = Some (VSlice t xs) \<longrightarrow>
      parseSlice H h [d] (VPtr (TPtr (TSlice ft)) (Some r)) = Panic ReflectPanic
      \<and> (\<forall>d'. typeof d' = Some ft \<longrightarrow>
            (\<exists>h'. parseSlice H h [d'] (VPtr (TPtr (TSlice ft)) (Some r)) = Ok h'
                  \<and> load h' r = Some (VSlice t (xs @ [d'])))))"
proof (intro conjI impI allI)
  assume sc: "is_scalar ft" and d: "typeof d = Some vt" "vt \<noteq> ft"
    and c: "convertOp ft vt = Some c"
    and nm: "TrimPrefix_star (type_string ft) \<noteq> ''common.Address''"
  note k = scalar_kinds [OF sc]
  {
    assume old: "load h fr = Some old"
    have "parseStruct_field H h (Loc ft fr False) d
          = Value_Set h (Loc ft fr False) (apply_cvt c ft d)"
      using k nm d c by (simp add: field_scalar)
    with Value_Set_typed [OF typeof_apply_cvt [OF sc d(1) c] old]
    show "\<exists>h'. parseStruct_field H h (Loc ft fr False) d = Ok h'
            \<and> load h' fr = Some (apply_cvt c ft d)"
      by auto
  }
  {
    assume "load h r = Some (VSlice t xs)"
    with k scalar_assignTo_None [OF sc d]
    show "parseSlice H h [d] (VPtr (TPtr (TSlice ft)) (Some r)) = Panic ReflectPanic"
      by (simp add: parseSlice.simps parseSlice_loop.simps parseSlice_elem.simps Append_Set_def)
  }
  {
    fix d'
    assume "load h r = Some (VSlice t xs)" and "typeof d' = Some ft"
    with sc show "\<exists>h'. parseSlice H h [d'] (VPtr (TPtr (TSlice ft)) (Some r)) = Ok h'
                  \<and> load h' r = Some (VSlice t (xs @ [d']))"
      by (intro scalar_append)
  }
qed

theorem conversion_asymmetry_witness:
  "is_scalar (TInt U64) \<and> typeof (VInt (TInt I64) 7) = Some (TInt I64) \<and> TInt I64 \<noteq> TInt U64
   \<and> convertOp (TInt U64) (TInt I64) = Some cvtInt
   \<and> TrimPrefix_star (type_string (TInt U64)) \<noteq> ''common.Address''
   \<and> load [zero Trio_t] (0, [0]) = Some (VInt (TInt U64) 0)
   \<and> (\<exists>h'. parseStruct_field hex0 [zero Trio_t] (Loc (TInt U64) (0, [0]) False) (VInt (TInt I64) 7)
             = Ok h' \<and> load h' (0, [0]) = Some (VInt (TInt U64) 7))
   \<and> load [zero Trio_t] (0, [1]) = Some (VSlice (TSlice (TInt U64)) [])
   \<and> parseSlice hex0 [zero Trio_t] [VInt (TInt I64) 7] (VPtr (TPtr (TSlice (TInt U64))) (Some (0, [1])))
       = Panic ReflectPanic
   \<and> typeof (VInt (TInt U64) 7) = Some (TInt U64)
   \<and> (\<exists>h'. parseSlice hex0 [zero Trio_t] [VInt (TInt U64) 7]
               (VPtr (TPtr (TSlice (TInt U64))) (Some (0, [1]))) = Ok h'
             \<and> load h' (0, [1]) = Some (VSlice (TSlice (TInt U64)) [VInt (TInt U64) 7]))"
  using conversion_asymmetry [where ft = "TInt U64" and d = "VInt (TInt I64) 7" and vt = "TInt I64"
      and c = cvtInt and h = "[zero Trio_t]" and fr = "(0, [0])" and old = "VInt (TInt U64) 0"
      and H = hex0 and r = "(0, [1])" and t = "TSlice (TInt U64)" and xs = "[]"]
  by (simp add: is_scalar_def convertOp_def TrimPrefix_star_def Trio_t_def zero_def load_def
      wrap_int_def)

theorem raw_assignment_counterexample:
  "parseSlice hex0 [zero Trio_t] [VInt (TInt I64) 7] (VPtr (TPtr (TSlice (TInt U64))) (Some (0, [1])))
     = Panic ReflectPanic"
  by (simp add: binder_simps reflect_defs Trio_t_def)

section \<open>Scalar fields\<close>

text \<open>
  C4 (corrected). For a struct field that is no pointer, struct, slice or array and does
  not print as \<^verbatim>\<open>common.Address\<close>, and a decoded node of another type: when Go has no
  conversion between the two types the bind returns the \<^verbatim>\<open>cannot convert\<close> error;
  when it has one, the converted value is assigned. The conversion need not keep the
  value: between integer types it always exists and wraps to the width of the field.
\<close>

theorem scalar_field_conversion:
  "kind_of ft \<noteq> KPtr \<Longrightarrow> kind_of ft \<noteq> KStruct \<Longrightarrow> kind_of ft \<noteq> KSlice \<Longrightarrow>
   kind_of ft \<noteq> KArray \<Longrightarrow> TrimPrefix_star (type_string ft) \<noteq> ''common.Address'' \<Longrightarrow>
   typeof d = Some vt \<Longrightarrow> vt \<noteq> ft \<Longrightarrow>
   (convertOp ft vt = None \<longrightarrow>
      parseStruct_field H h (Loc ft fr ro) d = Err (CannotConvert vt ft)) \<and>
   (\<forall>c. convertOp ft vt = Some c \<longrightarrow>
      parseStruct_field H h (Loc ft fr ro) d = Value_Set h (Loc ft fr ro) (apply_cvt c ft d)) \<and>
   (\<forall>k k' n old. kind_of ft = KInt k \<and> kind_of vt = KInt k' \<and> d = VInt vt n
        \<and> load h fr = Some old \<longrightarrow>
      (\<exists>h'. parseStruct_field H h (Loc ft fr False) d = Ok h'
            \<and> load h' fr = Some (VInt ft (wrap_int k n))))"
proof -
  assume sc: "kind_of ft \<noteq> KPtr" "kind_of ft \<noteq> KStruct" "kind_of ft \<noteq> KSlice"
    "kind_of ft \<noteq> KArray" "TrimPrefix_star (type_string ft) \<noteq> ''common.Address''"
    and d: "typeof d = Some vt" "vt \<noteq> ft"
  have eq: "parseStruct_field H h (Loc ft fr ro') d =
      (case convertOp ft vt of
         Some c \<Rightarrow> Value_Set h (Loc ft fr ro') (apply_cvt c ft d)
       | None \<Rightarrow> Err (CannotConvert vt ft))" for ro'
    using d by (simp add: field_scalar [OF sc])
  have "\<exists>h'. parseStruct_field H h (Loc ft fr False) d = Ok h'
            \<and> load h' fr = Some (VInt ft (wrap_int k n))"
    if "kind_of ft = KInt k" "kind_of vt = KInt k'" "d = VInt vt n" "load h fr = Some old"
    for k k' n old
  proof -
    have "parseStruct_field H h (Loc ft fr False) d
          = Value_Set h (Loc ft fr False) (apply_cvt cvtInt ft d)"
      by (simp add: eq convertOp_ints [OF that(1,2)])
    moreover have "apply_cvt cvtInt ft d = VInt ft (wrap_int k n)"
      using that by simp
    ultimately have "parseStruct_field H h (Loc ft fr False) d
          = Value_Set h (Loc ft fr False) (VInt ft (wrap_int k n))"
      by simp
    with Value_Set_typed [of "VInt ft (wrap_int k n)" ft h fr old] that(4)
    show ?thesis by auto
  qed
  then show ?thesis by (auto simp: eq)
qed

theorem scalar_field_conversion_witness:
  "kind_of (TInt U8) \<noteq> KPtr \<and> kind_of (TInt U8) \<noteq> KStruct \<and> kind_of (TInt U8) \<noteq> KSlice
   \<and> kind_of (TInt U8) \<noteq> KArray \<and> TrimPrefix_star (type_string (TInt U8)) \<noteq> ''common.Address''
   \<and> typeof (VInt (TInt U64) 300) = Some (TInt U64) \<and> TInt U64 \<noteq> TInt U8
   \<and> typeof (VBool TBool True) = Some TBool \<and> TBool \<noteq> TInt U8
   \<and> convertOp (TInt U8) TBool = None
   \<and> parseStruct_field hex0 [zero Small_t] (Loc (TInt U8) (0, [0]) False) (VBool TBool True)
       = Err (CannotConvert TBool (TInt U8))
   \<and> convertOp (TInt U8) (TInt U64) = Some cvtInt
   \<and> load [zero Small_t] (0, [0]) = Some (VInt (TInt U8) 0)
   \<and> parseStruct_field hex0 [zero Small_t] (Loc (TInt U8) (0, [0]) False) (VInt (TInt U64) 300)
       = Ok [VStruct Small_t [VInt (TInt U8) 44]]"
  using scalar_field_conversion [where ft = "TInt U8" and d = "VInt (TInt U64) 300"
      and vt = "TInt U64" and H = hex0 and h = "[zero Small_t]" and fr = "(0, [0])" and ro = False]
    scalar_field_conversion [where ft = "TInt U8" and d = "VBool TBool True"
      and vt = "TBool" and H = hex0 and h = "[zero Small_t]" and fr = "(0, [0])" and ro = False]
  by (simp add: TrimPrefix_star_def convertOp_def Small_t_def zero_def load_def store_def
      assignTo_def directlyAssignable_def wrap_int_def)

theorem lossy_conversion_counterexample:
  "Parse hex0 [zero Small_t] [VInt (TInt U64) 300] (VPtr (TPtr Small_t) (Some (0, [])))
   = Ok [VStruct Small_t [VInt (TInt U8) 44]]"
  by (simp add: Parse_def binder_simps reflect_defs Small_t_def wrap_int_def)

section \<open>Slices of slices\<close>

text \<open>
  C5. Bound to an empty target of type \<^verbatim>\<open>[][]uint64\<close>, the node list \<open>[[7]]\<close> does not
  put 7 into the target: \<^verbatim>\<open>parseSlice\<close> recurses on the nested node list with the
  same outer slice as its target, the recursive call finds the element type to be a
  slice again, asserts that the node 7 is a node list, and panics. So does \<^verbatim>\<open>Parse\<close>
  on a struct whose one field is of that type. The node list \<open>[[]]\<close> is bound with
  nothing appended to the target.
\<close>

theorem nested_sequence_panics:
  "parseSlice hex0 [zero Grid_t] [VSlice (TSlice TAny) [VInt (TInt U64) 7]]
     (VPtr (TPtr Grid_t) (Some (0, []))) = Panic TypeAssertion
   \<and> Parse hex0 [zero GridBox_t] [VSlice (TSlice TAny) [VSlice (TSlice TAny) [VInt (TInt U64) 7]]]
     (VPtr (TPtr GridBox_t) (Some (0, []))) = Panic TypeAssertion
   \<and> parseSlice hex0 [zero Grid_t] [VSlice (TSlice TAny) []]
     (VPtr (TPtr Grid_t) (Some (0, []))) = Ok [VSlice Grid_t []]"
  by (simp add: Parse_def binder_simps reflect_defs Grid_t_def GridBox_t_def)

section \<open>parsePointer on a scalar\<close>

text \<open>
  C6. Bound to the exported field \<open>P\<close> of type \<^verbatim>\<open>*uint64\<close>, unset, with the singleton node
  list holding the \<^verbatim>\<open>uint64\<close> 7, \<^verbatim>\<open>parsePointer\<close> allocates the \<^verbatim>\<open>uint64\<close> and then
  panics: it hands the node list itself, not the node in it, to \<^verbatim>\<open>Set\<close>. So does
  \<^verbatim>\<open>Parse\<close> on the struct with that one field. With a field of type \<^verbatim>\<open>*interface{}\<close>
  the bind succeeds, and what the new cell then holds is the node list, not the node.
\<close>

theorem parsePointer_scalar_panics:
  "parsePointer hex0 [zero Box_t] [VInt (TInt U64) 7] (Loc (TPtr (TInt U64)) (0, [0]) False)
     = Panic ReflectPanic
   \<and> Parse hex0 [zero Box_t] [VInt (TInt U64) 7] (VPtr (TPtr Box_t) (Some (0, [])))
     = Panic ReflectPanic
   \<and> Parse hex0 [zero AnyBox_t] [VInt (TInt U64) 7] (VPtr (TPtr AnyBox_t) (Some (0, [])))
     = Ok [VStruct AnyBox_t [VPtr (TPtr TAny) (Some (1, []))],
           VSlice (TSlice TAny) [VInt (TInt U64) 7]]"
  by (simp add: Parse_def binder_simps reflect_defs Box_t_def AnyBox_t_def)

section \<open>Pointer fields to big integers\<close>

text \<open>
  C7. For an exported struct field of type \<^verbatim>\<open>*big.Int\<close>: when the decoded node is itself
  a \<^verbatim>\<open>*big.Int\<close>, the bind succeeds and stores that very pointer in the field, with
  no cell allocated; when the node is anything else (the nil interface included), the
  bind returns the error \<^verbatim>\<open>expected *big.Int\<close>, whether the field is exported or not.
\<close>

theorem bigint_pointer_field:
  "load h fr = Some old \<Longrightarrow>
   (isBigInt d \<longrightarrow>
      (\<exists>h'. parseStruct_field H h (Loc (TPtr big_Int) fr False) d = Ok h'
            \<and> store h fr d = Some h' \<and> load h' fr = Some d \<and> length h' = length h)) \<and>
   (\<not> isBigInt d \<longrightarrow>
      parseStruct_field H h (Loc (TPtr big_Int) fr ro) d = Err (ExpectedBigInt (typeof d)))"
proof -
  assume old: "load h fr = Some old"
  have k: "kind_of (TPtr big_Int) = KPtr" "type_string (elem_of (TPtr big_Int)) = ''big.Int''"
    by (simp_all add: big_Int_def)
  have eq: "parseStruct_field H h (Loc (TPtr big_Int) fr ro') d =
     (if isBigInt d then Value_Set h (Loc (TPtr big_Int) fr ro') d else Err (ExpectedBigInt (typeof d)))" for ro'
    by (rule field_bigint [OF k])
  show ?thesis
  proof (cases "isBigInt d")
    case True
    from store_total [OF old] obtain h' where st: "store h fr d = Some h'" by blast
    from True have "assignTo (TPtr big_Int) d = Some d"
      by (cases d) (simp_all add: isBigInt_def assignTo_def directlyAssignable_def)
    with True st show ?thesis
      using load_store [OF st] length_store [OF st] by (simp add: eq)
  next
    case False
    then show ?thesis by (simp add: eq)
  qed
qed

theorem bigint_pointer_field_witness:
  "load [zero Wallet_t, zero big_Int] (0, [0]) = Some (VPtr (TPtr big_Int) None)
   \<and> isBigInt (VPtr (TPtr big_Int) (Some (1, [])))
   \<and> parseStruct_field hex0 [zero Wallet_t, zero big_Int] (Loc (TPtr big_Int) (0, [0]) False)
         (VPtr (TPtr big_Int) (Some (1, [])))
       = Ok [VStruct Wallet_t [VPtr (TPtr big_Int) (Some (1, []))], zero big_Int]
   \<and> \<not> isBigInt (VStr TString ''12'')
   \<and> parseStruct_field hex0 [zero Wallet_t, zero big_Int] (Loc (TPtr big_Int) (0, [0]) False)
         (VStr TString ''12'')
       = Err (ExpectedBigInt (Some TString))"
  using bigint_pointer_field [where h = "[zero Wallet_t, zero big_Int]" and fr = "(0, [0])"
      and old = "VPtr (TPtr big_Int) None" and d = "VPtr (TPtr big_Int) (Some (1, []))"
      and H = hex0 and ro = False]
    bigint_pointer_field [where h = "[zero Wallet_t, zero big_Int]" and fr = "(0, [0])"
      and old = "VPtr (TPtr big_Int) None" and d = "VStr TString ''12''"
      and H = hex0 and ro = False]
  by (auto simp: Wallet_t_def zero_def load_def store_def isBigInt_def)

section \<open>Errors of a field\<close>

text \<open>
  C8 (corrected). The loop over the fields returns an error exactly when, binding the
  fields in order, each on the heap the one before it left, every field before some field
  \<open>j\<close> returns nil and the binding of \<open>j\<close> returns that error: the error of the first
  failing field is returned as that field's binding returned it, and the nodes after the
  one of \<open>j\<close> are not looked at. The error of a field is, for a pointer, struct or slice
  field bound by a nested call, the error that nested call returned, wrapped once by
  \<^verbatim>\<open>parseStruct\<close> with the class of the field; for a \<^verbatim>\<open>*big.Int\<close> field and for a
  scalar field it is raised at the field itself, is not wrapped and carries only the
  types involved (\<^verbatim>\<open>expected *big.Int\<close>, \<^verbatim>\<open>cannot convert\<close>).
\<close>

theorem field_errors_propagate:
  "(parseStruct_fields H h decoded st r i = Err e \<longleftrightarrow>
      (\<exists>j h'. i \<le> j \<and> j < NumField st \<and> j < length decoded
         \<and> fields_bound H h decoded st r i (j - i) = Some h'
         \<and> parseStruct_field H h' (field_at st r j) (decoded ! j) = Err e)) \<and>
   (parseStruct_fields H h decoded st r i = Err e \<longrightarrow>
      (\<exists>j. i \<le> j \<and> j < NumField st \<and> j < length decoded
         \<and> (\<forall>ds. parseStruct_fields H h (take (Suc j) decoded @ ds) st r i = Err e))) \<and>
   (parseStruct_field H g (Loc ft fr ro) d = Err e1 \<longrightarrow>
      (if kind_of ft = KPtr \<and> type_string (elem_of ft) \<noteq> ''big.Int''
            \<and> type_string (elem_of ft) \<noteq> ''common.Address''
       then \<exists>n e'. e1 = Wrapped In_parseStruct PointerField n e'
              \<and> (if kind_of (elem_of ft) = KStruct
                  then \<exists>g1 xs p. set_if_nil g ft fr ro = Ok g1 \<and> asList d = Some xs
                         \<and> Value_Interface g1 (Loc ft fr ro) = Ok p
                         \<and> parseStruct H g1 xs p = Err e'
                  else parsePointer H g [d] (Loc ft fr ro) = Err e')
       else if kind_of ft = KStruct
       then \<exists>n e' xs. e1 = Wrapped In_parseStruct StructField n e' \<and> asList d = Some xs
              \<and> parseStruct H g xs (VPtr (TPtr ft) (Some fr)) = Err e'
       else if kind_of ft = KSlice \<or> kind_of ft = KArray
       then \<exists>n e' xs. e1 = Wrapped In_parseStruct SliceField n e' \<and> asList d = Some xs
              \<and> parseSlice H g xs (VPtr (TPtr ft) (Some fr)) = Err e'
       else if kind_of ft = KPtr
       then type_string (elem_of ft) = ''big.Int'' \<and> \<not> isBigInt d
              \<and> e1 = ExpectedBigInt (typeof d)
       else \<exists>vt. typeof d = Some vt \<and> vt \<noteq> ft \<and> convertOp ft vt = None
              \<and> e1 = CannotConvert vt ft))"
proof (intro conjI impI)
  show "parseStruct_fields H h decoded st r i = Err e \<longleftrightarrow>
      (\<exists>j h'. i \<le> j \<and> j < NumField st \<and> j < length decoded
         \<and> fields_bound H h decoded st r i (j - i) = Some h'
         \<and> parseStruct_field H h' (field_at st r j) (decoded ! j) = Err e)"
    by (rule parseStruct_fields_Err_iff)
next
  assume "parseStruct_fields H h decoded st r i = Err e"
  then show "\<exists>j. i \<le> j \<and> j < NumField st \<and> j < length decoded
         \<and> (\<forall>ds. parseStruct_fields H h (take (Suc j) decoded @ ds) st r i = Err e)"
    by (rule parseStruct_fields_Err_prefix)
next
  assume "parseStruct_field H g (Loc ft fr ro) d = Err e1"
  then show "if kind_of ft = KPtr \<and> type_string (elem_of ft) \<noteq> ''big.Int''
            \<and> type_string (elem_of ft) \<noteq> ''common.Address''
       then \<exists>n e'. e1 = Wrapped In_parseStruct PointerField n e'
              \<and> (if kind_of (elem_of ft) = KStruct
                  then \<exists>g1 xs p. set_if_nil g ft fr ro = Ok g1 \<and> asList d = Some xs
                         \<and> Value_Interface g1 (Loc ft fr ro) = Ok p
                         \<and> parseStruct H g1 xs p = Err e'
                  else parsePointer H g [d] (Loc ft fr ro) = Err e')
       else if kind_of ft = KStruct
       then \<exists>n e' xs. e1 = Wrapped In_parseStruct StructField n e' \<and> asList d = Some xs
              \<and> parseStruct H g xs (VPtr (TPtr ft) (Some fr)) = Err e'
       else if kind_of ft = KSlice \<or> kind_of ft = KArray
       then \<exists>n e' xs. e1 = Wrapped In_parseStruct SliceField n e' \<and> asList d = Some xs
              \<and> parseSlice H g xs (VPtr (TPtr ft) (Some fr)) = Err e'
       else if kind_of ft = KPtr
       then type_string (elem_of ft) = ''big.Int'' \<and> \<not> isBigInt d
              \<and> e1 = ExpectedBigInt (typeof d)
       else \<exists>vt. typeof d = Some vt \<and> vt \<noteq> ft \<and> convertOp ft vt = None
              \<and> e1 = CannotConvert vt ft"
    by (rule field_error_tied)
qed

theorem field_errors_propagate_witness:
  "fields_bound hex0 [zero Steps_t] [VInt (TInt U64) 1, VBool TBool True, VBool TBool True]
      Steps_t (0, []) 0 (1 - 0)
     = Some [VStruct Steps_t [VInt (TInt U64) 1, VInt (TInt U8) 0, VStr TString []]]
   \<and> parseStruct_field hex0 [VStruct Steps_t [VInt (TInt U64) 1, VInt (TInt U8) 0, VStr TString []]]
        (field_at Steps_t (0, []) 1) ([VInt (TInt U64) 1, VBool TBool True, VBool TBool True] ! 1)
     = Err (CannotConvert TBool (TInt U8))
   \<and> parseStruct_field hex0 [VStruct Steps_t [VInt (TInt U64) 1, VInt (TInt U8) 0, VStr TString []]]
        (field_at Steps_t (0, []) 2) ([VInt (TInt U64) 1, VBool TBool True, VBool TBool True] ! 2)
     = Err (CannotConvert TBool TString)
   \<and> parseStruct_fields hex0 [zero Steps_t] [VInt (TInt U64) 1, VBool TBool True, VBool TBool True]
        Steps_t (0, []) 0
     = Err (CannotConvert TBool (TInt U8))
   \<and> parseStruct_field hex0 [zero Outer_t] (Loc Pair_t (0, [0]) False)
        (VSlice (TSlice TAny) [VInt (TInt U64) 1])
     = Err (Wrapped In_parseStruct StructField ''Pair'' CountMismatch)
   \<and> parseStruct hex0 [zero Outer_t] [VInt (TInt U64) 1] (VPtr (TPtr Pair_t) (Some (0, [0])))
     = Err CountMismatch"
proof -
  let ?ds = "[VInt (TInt U64) 1, VBool TBool True, VBool TBool True]"
  let ?h1 = "[VStruct Steps_t [VInt (TInt U64) 1, VInt (TInt U8) 0, VStr TString []]]"
  let ?d = "VSlice (TSlice TAny) [VInt (TInt U64) 1]"
  let ?w = "Wrapped In_parseStruct StructField ''Pair'' CountMismatch"
  have b: "fields_bound hex0 [zero Steps_t] ?ds Steps_t (0, []) 0 (1 - 0) = Some ?h1"
    by (simp add: field_at_def parseStruct_field.simps reflect_defs Steps_t_def)
  have f1: "parseStruct_field hex0 ?h1 (field_at Steps_t (0, []) 1) (?ds ! 1)
            = Err (CannotConvert TBool (TInt U8))"
    by (simp add: field_at_def parseStruct_field.simps reflect_defs Steps_t_def)
  have f2: "parseStruct_field hex0 ?h1 (field_at Steps_t (0, []) 2) (?ds ! 2)
            = Err (CannotConvert TBool TString)"
    by (simp add: field_at_def parseStruct_field.simps reflect_defs Steps_t_def)
  have j: "(0::nat) \<le> 1 \<and> 1 < NumField Steps_t \<and> 1 < length ?ds"
    by (simp add: NumField_def Steps_t_def)
  have w: "parseStruct_field hex0 [zero Outer_t] (Loc Pair_t (0, [0]) False) ?d = Err ?w"
    by (simp add: binder_simps reflect_defs Outer_t_def Pair_t_def)
  have k: "kind_of Pair_t = KStruct" by (simp add: Pair_t_def)
  note t = field_errors_propagate [where H = hex0 and h = "[zero Steps_t]" and decoded = ?ds
      and st = Steps_t and r = "(0, [])" and i = 0 and e = "CannotConvert TBool (TInt U8)"
      and g = "[zero Outer_t]" and ft = Pair_t and fr = "(0, [0])" and ro = False and d = ?d
      and ?e1.0 = ?w]
  from t [THEN conjunct1] j b f1
  have l: "parseStruct_fields hex0 [zero Steps_t] ?ds Steps_t (0, []) 0
           = Err (CannotConvert TBool (TInt U8))"
    by blast
  from t [THEN conjunct2, THEN conjunct2] w k
  have "\<exists>n e' xs. ?w = Wrapped In_parseStruct StructField n e' \<and> asList ?d = Some xs
          \<and> parseStruct hex0 [zero Outer_t] xs (VPtr (TPtr Pair_t) (Some (0, [0]))) = Err e'"
    by simp
  then have n: "parseStruct hex0 [zero Outer_t] [VInt (TInt U64) 1]
                  (VPtr (TPtr Pair_t) (Some (0, [0]))) = Err CountMismatch"
    by (auto simp: asList_def)
  from b f1 f2 l w n show ?thesis by blast
qed

theorem error_wrapping_counterexample:
  "Parse hex0 [zero Small_t] [VBool TBool True] (VPtr (TPtr Small_t) (Some (0, [])))
     = Err (CannotConvert TBool (TInt U8))
   \<and> Parse hex0 [zero Outer_t] [VSlice (TSlice TAny) [VInt (TInt U64) 1]]
       (VPtr (TPtr Outer_t) (Some (0, [])))
     = Err (Wrapped In_parseStruct StructField ''Pair'' CountMismatch)"
  by (simp add: Parse_def binder_simps reflect_defs Small_t_def Outer_t_def Pair_t_def)

section \<open>Growth of the target slice\<close>

text \<open>
  C9 (corrected). A call of \<^verbatim>\<open>parseSlice\<close> that returns nil has kept the elements
  that were in the target slice, in their order, and has appended to them. When the
  element type is not itself a slice or an array it has appended exactly one element
  for each decoded node, in node order: binding the nodes \<open>ds1\<close> followed by \<open>ds2\<close> is
  binding \<open>ds1\<close>, which appends one element per node of \<open>ds1\<close>, and then binding
  \<open>ds2\<close>, which appends one element per node of \<open>ds2\<close> behind them; for an element
  type that is appended without a nested bind the elements are the nodes themselves.
\<close>

theorem parseSlice_appends_in_order:
  "load h r = Some (VSlice t xs) \<Longrightarrow>
   parseSlice H h (ds1 @ ds2) (VPtr pt (Some r)) = Ok h' \<Longrightarrow>
   \<exists>h1 ys1 ys2.
     parseSlice H h ds1 (VPtr pt (Some r)) = Ok h1
     \<and> load h1 r = Some (VSlice t (xs @ ys1)) \<and> appended (elem_of (elem_of pt)) ds1 ys1
     \<and> parseSlice H h1 ds2 (VPtr pt (Some r)) = Ok h'
     \<and> load h' r = Some (VSlice t (xs @ ys1 @ ys2)) \<and> appended (elem_of (elem_of pt)) ds2 ys2"
proof -
  assume ld: "load h r = Some (VSlice t xs)"
    and ok: "parseSlice H h (ds1 @ ds2) (VPtr pt (Some r)) = Ok h'"
  let ?st = "elem_of pt"
  from ok have k: "kind_of ?st = KSlice"
    and l: "parseSlice_loop H h (ds1 @ ds2) ?st r = Ok h'"
    by (auto simp: parseSlice.simps split: if_splits)
  from k have eq: "parseSlice H g ds (VPtr pt (Some r)) = parseSlice_loop H g ds ?st r" for g ds
    by (simp add: parseSlice.simps)
  from l obtain h1 where l1: "parseSlice_loop H h ds1 ?st r = Ok h1"
    and l2: "parseSlice_loop H h1 ds2 ?st r = Ok h'"
    unfolding parseSlice_loop_append by (auto split: result.splits)
  from binders_frame(5) [rule_format, OF ld l1] obtain ys1
    where ld1: "load h1 r = Some (VSlice t (xs @ ys1))" and a1: "appended (elem_of ?st) ds1 ys1"
    by blast
  from binders_frame(5) [rule_format, OF ld1 l2] obtain ys2
    where ld2: "load h' r = Some (VSlice t ((xs @ ys1) @ ys2))"
      and a2: "appended (elem_of ?st) ds2 ys2"
    by blast
  from l1 ld1 a1 l2 ld2 a2 show ?thesis
    unfolding eq by (intro exI [of _ h1] exI [of _ ys1] exI [of _ ys2]) simp
qed

theorem parseSlice_appends_in_order_witness:
  "load [zero Trio_t] (0, [1]) = Some (VSlice (TSlice (TInt U64)) [])
   \<and> parseSlice hex0 [zero Trio_t] ([VInt (TInt U64) 5] @ [VInt (TInt U64) 6])
       (VPtr (TPtr (TSlice (TInt U64))) (Some (0, [1])))
     = Ok [VStruct Trio_t [VInt (TInt U64) 0,
            VSlice (TSlice (TInt U64)) [VInt (TInt U64) 5, VInt (TInt U64) 6],
            VPtr (TPtr (TInt U64)) None]]
   \<and> (\<exists>h1 ys1 ys2.
        parseSlice hex0 [zero Trio_t] [VInt (TInt U64) 5]
          (VPtr (TPtr (TSlice (TInt U64))) (Some (0, [1]))) = Ok h1
        \<and> load h1 (0, [1]) = Some (VSlice (TSlice (TInt U64)) ([] @ ys1))
        \<and> appended (elem_of (elem_of (TPtr (TSlice (TInt U64))))) [VInt (TInt U64) 5] ys1
        \<and> parseSlice hex0 h1 [VInt (TInt U64) 6]
          (VPtr (TPtr (TSlice (TInt U64))) (Some (0, [1])))
           = Ok [VStruct Trio_t [VInt (TInt U64) 0,
                  VSlice (TSlice (TInt U64)) [VInt (TInt U64) 5, VInt (TInt U64) 6],
                  VPtr (TPtr (TInt U64)) None]]
        \<and> load [VStruct Trio_t [VInt (TInt U64) 0,
                  VSlice (TSlice (TInt U64)) [VInt (TInt U64) 5, VInt (TInt U64) 6],
                  VPtr (TPtr (TInt U64)) None]] (0, [1])
           = Some (VSlice (TSlice (TInt U64)) ([] @ ys1 @ ys2))
        \<and> appended (elem_of (elem_of (TPtr (TSlice (TInt U64))))) [VInt (TInt U64) 6] ys2)
   \<and> appends_raw (TInt U64) \<and> kind_of (TInt U64) \<noteq> KSlice \<and> kind_of (TInt U64) \<noteq> KArray"
proof -
  have ld: "load [zero Trio_t] (0, [1]) = Some (VSlice (TSlice (TInt U64)) [])"
    by (simp add: Trio_t_def zero_def load_def)
  have ok: "parseSlice hex0 [zero Trio_t] ([VInt (TInt U64) 5] @ [VInt (TInt U64) 6])
       (VPtr (TPtr (TSlice (TInt U64))) (Some (0, [1])))
     = Ok [VStruct Trio_t [VInt (TInt U64) 0,
            VSlice (TSlice (TInt U64)) [VInt (TInt U64) 5, VInt (TInt U64) 6],
            VPtr (TPtr (TInt U64)) None]]"
    by (simp add: binder_simps reflect_defs Trio_t_def)
  have r: "appends_raw (TInt U64) \<and> kind_of (TInt U64) \<noteq> KSlice \<and> kind_of (TInt U64) \<noteq> KArray"
    by (simp add: appends_raw_def)
  from ld ok parseSlice_appends_in_order [OF ld ok] r show ?thesis
    by (intro conjI) blast+
qed

theorem one_per_node_counterexample:
  "parseSlice hex0 [zero Grid_t] [VSlice (TSlice TAny) [], VSlice (TSlice TAny) []]
     (VPtr (TPtr Grid_t) (Some (0, []))) = Ok [VSlice Grid_t []]"
  by (simp add: binder_simps reflect_defs Grid_t_def)

section \<open>Panics\<close>

text \<open>
  C10. Not every shape violation is returned as an error. A struct type that prints as
  \<^verbatim>\<open>big.Int\<close> or \<^verbatim>\<open>common.Address\<close> and has a field passes the count check with an
  empty node list, and the loop then indexes \<^verbatim>\<open>decoded[0]\<close> out of range; in general the
  loop panics at the first field index that the node list does not have. The type
  assertions are unchecked too: a struct field, a slice field or a struct element of a
  slice given a node that is no node list, and a \<^verbatim>\<open>*common.Address\<close> field given a node
  that is no string, panic.
\<close>

theorem unchecked_accesses_panic:
  "(kind_of (elem_of pt) = KStruct
      \<and> (type_string (elem_of pt) = ''big.Int'' \<or> type_string (elem_of pt) = ''common.Address'')
      \<and> 0 < NumField (elem_of pt)
    \<longrightarrow> parseStruct H h [] (VPtr pt (Some r)) = Panic IndexOutOfRange) \<and>
   (length decoded \<le> i \<and> i < NumField st
    \<longrightarrow> parseStruct_fields H h decoded st r i = Panic IndexOutOfRange) \<and>
   (kind_of ft = KStruct \<and> asList d = None
    \<longrightarrow> parseStruct_field H h (Loc ft fr ro) d = Panic TypeAssertion) \<and>
   (kind_of pf = KPtr \<and> type_string (elem_of pf) = ''common.Address'' \<and> asString d = None
    \<longrightarrow> parseStruct_field H h (Loc pf fr ro) d = Panic TypeAssertion) \<and>
   ((kind_of sf = KSlice \<or> kind_of sf = KArray) \<and> typeof d = Some vt
      \<and> type_string vt \<noteq> ''[]uint8'' \<and> type_string vt \<noteq> ''[]byte''
      \<and> type_string vt \<noteq> ''string'' \<and> asList d = None
    \<longrightarrow> parseStruct_field H h (Loc sf fr ro) d = Panic TypeAssertion) \<and>
   (kind_of (elem_of sl) = KStruct \<and> asList d = None
    \<longrightarrow> parseSlice_elem H h d sl r = Panic TypeAssertion)"
proof (intro conjI impI)
  assume "kind_of (elem_of pt) = KStruct
      \<and> (type_string (elem_of pt) = ''big.Int'' \<or> type_string (elem_of pt) = ''common.Address'')
      \<and> 0 < NumField (elem_of pt)"
  then show "parseStruct H h [] (VPtr pt (Some r)) = Panic IndexOutOfRange"
    by (auto simp: parseStruct.simps parseStruct_fields.simps)
next
  assume "length decoded \<le> i \<and> i < NumField st"
  then show "parseStruct_fields H h decoded st r i = Panic IndexOutOfRange"
    by (subst parseStruct_fields.simps) simp
next
  assume "kind_of ft = KStruct \<and> asList d = None"
  then show "parseStruct_field H h (Loc ft fr ro) d = Panic TypeAssertion"
    by (simp add: field_struct)
next
  assume "kind_of pf = KPtr \<and> type_string (elem_of pf) = ''common.Address'' \<and> asString d = None"
  then show "parseStruct_field H h (Loc pf fr ro) d = Panic TypeAssertion"
    by (simp add: field_address_ptr)
next
  assume a: "(kind_of sf = KSlice \<or> kind_of sf = KArray) \<and> typeof d = Some vt
      \<and> type_string vt \<noteq> ''[]uint8'' \<and> type_string vt \<noteq> ''[]byte''
      \<and> type_string vt \<noteq> ''string'' \<and> asList d = None"
  then have "kind_of sf = KSlice \<or> kind_of sf = KArray" by simp
  from field_slice [OF this] a
  show "parseStruct_field H h (Loc sf fr ro) d = Panic TypeAssertion"
    by simp
next
  assume "kind_of (elem_of sl) = KStruct \<and> asList d = None"
  then show "parseSlice_elem H h d sl r = Panic TypeAssertion"
    by (simp add: parseSlice_elem.simps split: prod.split)
qed

theorem unchecked_accesses_panic_witness:
  "kind_of (elem_of (TPtr big_Int)) = KStruct \<and> type_string (elem_of (TPtr big_Int)) = ''big.Int''
   \<and> 0 < NumField (elem_of (TPtr big_Int))
   \<and> parseStruct hex0 [zero big_Int] [] (VPtr (TPtr big_Int) (Some (0, []))) = Panic IndexOutOfRange
   \<and> length [VInt (TInt U64) 1] \<le> 1 \<and> 1 < NumField Pair_t
   \<and> parseStruct_fields hex0 [zero big_Int] [VInt (TInt U64) 1] Pair_t (0, []) 1 = Panic IndexOutOfRange
   \<and> kind_of Pair_t = KStruct \<and> asList (VInt (TInt U64) 1) = None
   \<and> parseStruct_field hex0 [zero big_Int] (Loc Pair_t (0, []) False) (VInt (TInt U64) 1)
       = Panic TypeAssertion
   \<and> kind_of (TPtr common_Address) = KPtr
   \<and> type_string (elem_of (TPtr common_Address)) = ''common.Address''
   \<and> asString (VInt (TInt U64) 1) = None
   \<and> parseStruct_field hex0 [zero big_Int] (Loc (TPtr common_Address) (0, []) False) (VInt (TInt U64) 1)
       = Panic TypeAssertion
   \<and> kind_of (TSlice (TInt U64)) = KSlice \<and> typeof (VInt (TInt U64) 1) = Some (TInt U64)
   \<and> type_string (TInt U64) \<noteq> ''[]uint8'' \<and> type_string (TInt U64) \<noteq> ''[]byte''
   \<and> type_string (TInt U64) \<noteq> ''string''
   \<and> parseStruct_field hex0 [zero big_Int] (Loc (TSlice (TInt U64)) (0, []) False) (VInt (TInt U64) 1)
       = Panic TypeAssertion
   \<and> kind_of (elem_of (TSlice Pair_t)) = KStruct
   \<and> parseSlice_elem hex0 [zero big_Int] (VInt (TInt U64) 1) (TSlice Pair_t) (0, [])
       = Panic TypeAssertion"
  using unchecked_accesses_panic [where pt = "TPtr big_Int" and H = hex0 and h = "[zero big_Int]"
      and r = "(0, [])" and decoded = "[VInt (TInt U64) 1]" and i = 1 and st = Pair_t
      and ft = Pair_t and d = "VInt (TInt U64) 1" and fr = "(0, [])" and ro = False
      and pf = "TPtr common_Address" and sf = "TSlice (TInt U64)" and vt = "TInt U64"
      and sl = "TSlice Pair_t"]
  by (simp add: big_Int_def Pair_t_def common_Address_def NumField_def asList_def asString_def)

end
